theory Spec2Isabelle
  imports Complex_Main "HOL-Library.Sublist"
begin

section \<open>Python values used by the logging utilities\<close>

text \<open>
  The metrics dictionary of \<^verbatim>\<open>log.py\<close> holds Python floats (results of \<^verbatim>\<open>tensor.item()\<close>),
  the integer \<^verbatim>\<open>0\<close>, \<^verbatim>\<open>None\<close> and lists.  A Python float is modelled by its exact value:
  a real number, one of the two infinities, or NaN.  The special values follow IEEE 754 as
  Python exposes it (NaN compares false with everything, \<^verbatim>\<open>inf + -inf\<close> is NaN); rounding
  of the finite values to 53 bits is not modelled.  The integers \<^verbatim>\<open>0\<close> and \<^verbatim>\<open>0.0\<close> are the
  same value \<open>Fin 0\<close>.
\<close>

datatype pyfloat = Fin real | PInf | NInf | NaN

fun isnan :: "pyfloat \<Rightarrow> bool" where
  "isnan NaN = True"
| "isnan _ = False"

fun fneg :: "pyfloat \<Rightarrow> pyfloat" where
  "fneg (Fin a) = Fin (- a)"
| "fneg PInf = NInf"
| "fneg NInf = PInf"
| "fneg NaN = NaN"

text \<open>Python's \<^verbatim>\<open>a + b\<close> on floats.\<close>

fun fadd :: "pyfloat \<Rightarrow> pyfloat \<Rightarrow> pyfloat" where
  "fadd (Fin a) (Fin b) = Fin (a + b)"
| "fadd (Fin a) PInf = PInf"
| "fadd (Fin a) NInf = NInf"
| "fadd PInf (Fin b) = PInf"
| "fadd PInf PInf = PInf"
| "fadd NInf (Fin b) = NInf"
| "fadd NInf NInf = NInf"
| "fadd _ _ = NaN"

definition fsub :: "pyfloat \<Rightarrow> pyfloat \<Rightarrow> pyfloat" where
  "fsub a b = fadd a (fneg b)"

text \<open>Python's \<^verbatim>\<open>a < b\<close> on floats: false as soon as one side is NaN.\<close>

fun flt :: "pyfloat \<Rightarrow> pyfloat \<Rightarrow> bool" where
  "flt (Fin a) (Fin b) = (a < b)"
| "flt (Fin a) PInf = True"
| "flt NInf (Fin b) = True"
| "flt NInf PInf = True"
| "flt _ _ = False"

text \<open>Truth value of a number (\<^verbatim>\<open>if x:\<close>): everything except zero, NaN included.\<close>

definition truthy :: "pyfloat \<Rightarrow> bool" where
  "truthy x = (x \<noteq> Fin 0)"

text \<open>\<^verbatim>\<open>np.sqrt\<close> on a scalar: NaN (with a warning, no exception) below zero.\<close>

fun fsqrt :: "pyfloat \<Rightarrow> pyfloat" where
  "fsqrt (Fin a) = (if a < 0 then NaN else Fin (sqrt a))"
| "fsqrt PInf = PInf"
| "fsqrt NInf = NaN"
| "fsqrt NaN = NaN"

text \<open>\<^verbatim>\<open>round(x, n)\<close> on a float: to the nearest multiple of \<open>10^-n\<close>, ties to even.\<close>

definition round_half_even :: "real \<Rightarrow> int" where
  "round_half_even y =
     (let f = \<lfloor>y\<rfloor> in
      if y - of_int f < 1 / 2 then f
      else if 1 / 2 < y - of_int f then f + 1
      else if even f then f else f + 1)"

fun py_round :: "pyfloat \<Rightarrow> nat \<Rightarrow> pyfloat" where
  "py_round (Fin a) n = Fin (of_int (round_half_even (a * 10 ^ n)) / 10 ^ n)"
| "py_round x n = x"

datatype error =
    KeyError string
  | TypeError
  | AttributeError
  | IndexError
  | ZeroDivisionError
  | EarlyStoppingCondition
  | SystemExit int

text \<open>Python's \<^verbatim>\<open>a / b\<close> on floats and ints: a zero divisor raises.\<close>

fun fdiv :: "pyfloat \<Rightarrow> pyfloat \<Rightarrow> error + pyfloat" where
  "fdiv a (Fin b) =
     (if b = 0 then Inl ZeroDivisionError
      else Inr (case a of
                  Fin x \<Rightarrow> Fin (x / b)
                | PInf \<Rightarrow> (if 0 < b then PInf else NInf)
                | NInf \<Rightarrow> (if 0 < b then NInf else PInf)
                | NaN \<Rightarrow> NaN))"
| "fdiv (Fin x) PInf = Inr (Fin 0)"
| "fdiv (Fin x) NInf = Inr (Fin 0)"
| "fdiv _ _ = Inr NaN"

datatype pyval = VNone | VNum pyfloat | VList "pyval list"

type_synonym pydict = "string \<rightharpoonup> pyval"

definition bind_res :: "error + 'a \<Rightarrow> ('a \<Rightarrow> error + 'b) \<Rightarrow> error + 'b" where
  "bind_res r f = (case r of Inl e \<Rightarrow> Inl e | Inr v \<Rightarrow> f v)"

text \<open>\<^verbatim>\<open>d[k]\<close>\<close>

definition getitem :: "pydict \<Rightarrow> string \<Rightarrow> error + pyval" where
  "getitem d k = (case d k of None \<Rightarrow> Inl (KeyError k) | Some v \<Rightarrow> Inr v)"

text \<open>Using a value where a number is required (arithmetic, \<^verbatim>\<open>float(v)\<close>, a format spec).\<close>

fun num_of :: "pyval \<Rightarrow> error + pyfloat" where
  "num_of (VNum x) = Inr x"
| "num_of _ = Inl TypeError"

text \<open>\<^verbatim>\<open>d[k] += x\<close>\<close>

definition iadd :: "string \<Rightarrow> pyfloat \<Rightarrow> pydict \<Rightarrow> error + pydict" where
  "iadd k x d =
     (case d k of
        None \<Rightarrow> Inl (KeyError k)
      | Some (VNum a) \<Rightarrow> Inr (d(k \<mapsto> VNum (fadd a x)))
      | Some _ \<Rightarrow> Inl TypeError)"

text \<open>\<^verbatim>\<open>d[k] /= n\<close> for an integer \<^verbatim>\<open>n\<close>\<close>

definition idiv :: "string \<Rightarrow> int \<Rightarrow> pydict \<Rightarrow> error + pydict" where
  "idiv k n d =
     (case d k of
        None \<Rightarrow> Inl (KeyError k)
      | Some (VNum a) \<Rightarrow> bind_res (fdiv a (Fin (of_int n))) (\<lambda>q. Inr (d(k \<mapsto> VNum q)))
      | Some _ \<Rightarrow> Inl TypeError)"

text \<open>\<^verbatim>\<open>d[k].append(v)\<close>\<close>

definition append_to :: "string \<Rightarrow> pyval \<Rightarrow> pydict \<Rightarrow> error + pydict" where
  "append_to k v d =
     (case d k of
        None \<Rightarrow> Inl (KeyError k)
      | Some (VList xs) \<Rightarrow> Inr (d(k \<mapsto> VList (xs @ [v])))
      | Some _ \<Rightarrow> Inl AttributeError)"

section \<open>The metrics state\<close>

text \<open>
  \<^verbatim>\<open>init_metrics\<close> creates the top-level keys once and nothing removes them, so the top
  level is a record.  The keys of the per-split dictionaries are created by
  \<^verbatim>\<open>reset_metrics_for_epoch\<close> and \<^verbatim>\<open>update_metrics\<close>, so these stay maps and a
  missing key is a \<open>KeyError\<close>.  \<^verbatim>\<open>metrics["loss_to_compare"]\<close> and
  \<^verbatim>\<open>metrics["losses_to_compare"]\<close> appear with the first call of
  \<^verbatim>\<open>update_loss_trackers\<close>; the second one is the very list object stored in the split
  dictionary, kept here as the pair (split, key) that names it.
\<close>

record args =
  train_only :: bool
  combined_loss :: bool
  early_stopping :: "int option"
  lr_scheduling :: bool
  cluster :: bool
  log_structure_step :: int
  log_wandb_step :: int

record metrics =
  splits :: "string \<rightharpoonup> pydict"
  history_lr :: "pyfloat list"
  epoch_last_improved :: int
  best_valid_loss_so_far :: pyfloat
  loss_to_compare :: "pyval option"
  losses_to_compare :: "(string \<times> string) option"

definition empty_histories :: pydict where
  "empty_histories =
     [''epoch-history-drmsd'' \<mapsto> VList [], ''epoch-history-combined'' \<mapsto> VList []]"

definition init_metrics :: "args \<Rightarrow> metrics" where
  "init_metrics a =
     \<lparr> splits = [''train'' \<mapsto> empty_histories, ''valid'' \<mapsto> empty_histories,
                 ''test'' \<mapsto> empty_histories],
       history_lr = (if \<not> lr_scheduling a then [Fin 0] else []),
       epoch_last_improved = - 1,
       best_valid_loss_so_far = PInf,
       loss_to_compare = None,
       losses_to_compare = None \<rparr>"

text \<open>\<^verbatim>\<open>reset_metrics_for_epoch(metrics, mode)\<close>; \<open>now\<close> is the reading of \<^verbatim>\<open>time.time()\<close>.\<close>

definition reset_split :: "string \<Rightarrow> real \<Rightarrow> pydict \<Rightarrow> pydict" where
  "reset_split mode now d =
     d(''epoch-drmsd'' \<mapsto> VNum (Fin 0), ''batch-drmsd'' \<mapsto> VNum (Fin 0),
       ''epoch-ln-drmsd'' \<mapsto> VNum (Fin 0), ''batch-ln-drmsd'' \<mapsto> VNum (Fin 0),
       ''epoch-mse'' \<mapsto> VNum (Fin 0), ''batch-mse'' \<mapsto> VNum (Fin 0),
       ''epoch-combined'' \<mapsto> VNum (Fin 0), ''batch-combined'' \<mapsto> VNum (Fin 0),
       ''epoch-rmsd'' \<mapsto> (if mode = ''train'' then VNone else VNum (Fin 0)),
       ''batch-rmsd'' \<mapsto> (if mode = ''train'' then VNone else VNum (Fin 0)),
       ''batch-history'' \<mapsto> VList [],
       ''batch-time'' \<mapsto> VNum (Fin now),
       ''speed-history'' \<mapsto> VList [])"

definition reset_metrics_for_epoch :: "metrics \<Rightarrow> string \<Rightarrow> real \<Rightarrow> error + metrics" where
  "reset_metrics_for_epoch m mode now =
     (case splits m mode of
        None \<Rightarrow> Inl (KeyError mode)
      | Some d \<Rightarrow> Inr (m\<lparr>splits := (splits m)(mode \<mapsto> reset_split mode now d)\<rparr>))"

text \<open>
  \<^verbatim>\<open>(src_seq != 0).any(dim=-1).sum().item()\<close>: the number of rows of the batch with a
  nonzero entry.
\<close>

definition num_res :: "int list list \<Rightarrow> int" where
  "num_res src_seq = int (length (filter (list_ex (\<lambda>x. x \<noteq> 0)) src_seq))"

text \<open>
  \<^verbatim>\<open>update_metrics\<close> on the dictionary of one split.  The metric arguments are the
  \<^verbatim>\<open>.item()\<close> values of the tensors; \<open>rmsd\<close> and \<open>tracking_loss\<close> are \<open>None\<close> when the
  caller leaves them out; \<open>t1\<close> and \<open>t2\<close> are the two readings of \<^verbatim>\<open>time.time()\<close>.
\<close>

definition set_batch_fields ::
  "pyfloat \<Rightarrow> pyfloat \<Rightarrow> pyfloat \<Rightarrow> pyfloat \<Rightarrow> pyfloat option \<Rightarrow> pydict \<Rightarrow> pydict" where
  "set_batch_fields drmsd ln_drmsd mse combined rmsd d =
     (let d1 = d(''batch-drmsd'' \<mapsto> VNum drmsd, ''batch-ln-drmsd'' \<mapsto> VNum ln_drmsd,
                 ''batch-mse'' \<mapsto> VNum mse, ''batch-combined'' \<mapsto> VNum combined)
      in case rmsd of
           None \<Rightarrow> d1
         | Some r \<Rightarrow> if truthy r then d1(''batch-rmsd'' \<mapsto> VNum r) else d1)"

definition add_epoch_sums ::
  "pyfloat \<Rightarrow> pyfloat \<Rightarrow> pyfloat \<Rightarrow> pyfloat \<Rightarrow> pyfloat option \<Rightarrow> pydict \<Rightarrow> error + pydict" where
  "add_epoch_sums drmsd ln_drmsd mse combined rmsd d =
     bind_res (iadd ''epoch-drmsd'' drmsd d) (\<lambda>d1.
     bind_res (iadd ''epoch-ln-drmsd'' ln_drmsd d1) (\<lambda>d2.
     bind_res (iadd ''epoch-mse'' mse d2) (\<lambda>d3.
     bind_res (iadd ''epoch-combined'' combined d3) (\<lambda>d4.
       case rmsd of
         None \<Rightarrow> Inr d4
       | Some r \<Rightarrow> if truthy r then iadd ''epoch-rmsd'' r d4 else Inr d4))))"

definition update_speed :: "int list list \<Rightarrow> real \<Rightarrow> real \<Rightarrow> pydict \<Rightarrow> error + pydict" where
  "update_speed src_seq t1 t2 d =
     bind_res (getitem d ''batch-time'') (\<lambda>bt.
     bind_res (num_of bt) (\<lambda>b.
     bind_res (fdiv (Fin (of_int (num_res src_seq))) (fsub (Fin t1) b)) (\<lambda>q.
       let speed = VNum (py_round q 2);
           d1 = d(''speed'' \<mapsto> speed, ''batch-time'' \<mapsto> VNum (Fin t2))
       in append_to ''speed-history'' speed d1)))"

definition update_split ::
  "pyfloat \<Rightarrow> pyfloat \<Rightarrow> pyfloat \<Rightarrow> pyfloat \<Rightarrow> int list list \<Rightarrow> pyfloat option \<Rightarrow>
   pyfloat option \<Rightarrow> bool \<Rightarrow> real \<Rightarrow> real \<Rightarrow> pydict \<Rightarrow> error + pydict" where
  "update_split drmsd ln_drmsd mse combined src_seq rmsd tracking_loss batch_level t1 t2 d =
     bind_res (add_epoch_sums drmsd ln_drmsd mse combined rmsd
                 (if batch_level then set_batch_fields drmsd ln_drmsd mse combined rmsd d
                  else d)) (\<lambda>d1.
     bind_res (update_speed src_seq t1 t2 d1) (\<lambda>d2.
       case tracking_loss of
         None \<Rightarrow> Inr d2
       | Some l \<Rightarrow> if truthy l then append_to ''batch-history'' (VNum l) d2 else Inr d2))"

definition update_metrics ::
  "metrics \<Rightarrow> string \<Rightarrow> pyfloat \<Rightarrow> pyfloat \<Rightarrow> pyfloat \<Rightarrow> pyfloat \<Rightarrow> int list list \<Rightarrow>
   pyfloat option \<Rightarrow> pyfloat option \<Rightarrow> bool \<Rightarrow> real \<Rightarrow> real \<Rightarrow> error + metrics" where
  "update_metrics m mode drmsd ln_drmsd mse combined src_seq rmsd tracking_loss batch_level
     t1 t2 =
     (case splits m mode of
        None \<Rightarrow> Inl (KeyError mode)
      | Some d \<Rightarrow>
          bind_res (update_split drmsd ln_drmsd mse combined src_seq rmsd tracking_loss
                      batch_level t1 t2 d)
            (\<lambda>d'. Inr (m\<lparr>splits := (splits m)(mode \<mapsto> d')\<rparr>)))"

text \<open>\<^verbatim>\<open>update_metrics_end_of_epoch(metrics, mode, n_batches)\<close>\<close>

definition finalize_split :: "string \<Rightarrow> int \<Rightarrow> pydict \<Rightarrow> error + pydict" where
  "finalize_split mode n_batches d =
     bind_res (idiv ''epoch-drmsd'' n_batches d) (\<lambda>d1.
     bind_res (idiv ''epoch-ln-drmsd'' n_batches d1) (\<lambda>d2.
     bind_res (idiv ''epoch-mse'' n_batches d2) (\<lambda>d3.
     bind_res (idiv ''epoch-combined'' n_batches d3) (\<lambda>d4.
     bind_res (if mode = ''train'' then Inr (d4(''epoch-rmsd'' \<mapsto> VNone))
               else idiv ''epoch-rmsd'' n_batches d4) (\<lambda>d5.
     bind_res (getitem d5 ''epoch-combined'') (\<lambda>c.
     bind_res (append_to ''epoch-history-combined'' c d5) (\<lambda>d6.
     bind_res (getitem d6 ''epoch-drmsd'') (\<lambda>dr.
       append_to ''epoch-history-drmsd'' dr d6))))))))"

definition update_metrics_end_of_epoch :: "metrics \<Rightarrow> string \<Rightarrow> int \<Rightarrow> error + metrics" where
  "update_metrics_end_of_epoch m mode n_batches =
     (case splits m mode of
        None \<Rightarrow> Inl (KeyError mode)
      | Some d \<Rightarrow>
          bind_res (finalize_split mode n_batches d)
            (\<lambda>d'. Inr (m\<lparr>splits := (splits m)(mode \<mapsto> d')\<rparr>)))"

section \<open>Early stopping\<close>

definition compare_mode :: "args \<Rightarrow> string" where
  "compare_mode a = (if train_only a then ''train'' else ''valid'')"

definition loss_str :: "args \<Rightarrow> string" where
  "loss_str a = (if combined_loss a then ''combined'' else ''drmsd'')"

text \<open>The keys \<^verbatim>\<open>f"epoch-{loss_str}"\<close> and \<^verbatim>\<open>f"epoch-history-{loss_str}"\<close>.\<close>

definition loss_key :: "args \<Rightarrow> string" where
  "loss_key a = ''epoch-'' @ loss_str a"

definition history_key :: "args \<Rightarrow> string" where
  "history_key a = ''epoch-history-'' @ loss_str a"

text \<open>
  \<^verbatim>\<open>args.early_stopping and epoch_i - metrics["epoch_last_improved"] > args.early_stopping\<close>:
  \<^verbatim>\<open>None\<close> and \<^verbatim>\<open>0\<close> are false, so the comparison is not evaluated for them.
\<close>

definition patience_exceeded :: "args \<Rightarrow> int \<Rightarrow> metrics \<Rightarrow> bool" where
  "patience_exceeded a epoch_i m =
     (case early_stopping a of
        None \<Rightarrow> False
      | Some p \<Rightarrow> p \<noteq> 0 \<and> p < epoch_i - epoch_last_improved m)"

definition update_loss_trackers :: "args \<Rightarrow> int \<Rightarrow> metrics \<Rightarrow> error + metrics" where
  "update_loss_trackers a epoch_i m =
     (case splits m (compare_mode a) of
        None \<Rightarrow> Inl (KeyError (compare_mode a))
      | Some d \<Rightarrow>
          bind_res (getitem d (loss_key a)) (\<lambda>ltc.
          bind_res (getitem d (history_key a)) (\<lambda>hist.
          bind_res (num_of ltc) (\<lambda>l.
            if flt l (best_valid_loss_so_far m) then
              Inr (m\<lparr>best_valid_loss_so_far := l, epoch_last_improved := epoch_i,
                     loss_to_compare := Some ltc,
                     losses_to_compare :=
                       Some (compare_mode a, history_key a)\<rparr>)
            else if patience_exceeded a epoch_i m then Inl EarlyStoppingCondition
            else
              Inr (m\<lparr>loss_to_compare := Some ltc,
                     losses_to_compare :=
                       Some (compare_mode a, history_key a)\<rparr>)))))"

section \<open>The tabular log\<close>

datatype cell = CVal pyval | CStr string

text \<open>
  \<^verbatim>\<open>np.sqrt\<close> on a stored value.  \<^verbatim>\<open>None\<close> is a \<open>TypeError\<close>; a flat list of numbers is
  mapped elementwise.  The \<^verbatim>\<open>mse\<close> fields only ever hold numbers, so the list case is
  never reached from this module.
\<close>

definition is_num :: "pyval \<Rightarrow> bool" where
  "is_num v = (case v of VNum x \<Rightarrow> True | _ \<Rightarrow> False)"

definition np_sqrt :: "pyval \<Rightarrow> error + pyval" where
  "np_sqrt v =
     (case v of
        VNone \<Rightarrow> Inl TypeError
      | VNum x \<Rightarrow> Inr (VNum (fsqrt x))
      | VList xs \<Rightarrow>
          if list_all is_num xs
          then Inr (VList (map (\<lambda>w. case w of VNum x \<Rightarrow> VNum (fsqrt x) | _ \<Rightarrow> w) xs))
          else Inl TypeError)"

text \<open>\<^verbatim>\<open>xs[-1]\<close>\<close>

definition last_item :: "'a list \<Rightarrow> error + 'a" where
  "last_item xs = (if xs = [] then Inl IndexError else Inr (last xs))"

text \<open>
  \<^verbatim>\<open>log_batch(log_writer, metrics, start_time, mode, end_of_epoch, t)\<close>.  The result is the
  list handed to \<^verbatim>\<open>log_writer.writerow\<close>; \<open>now\<close> is the reading of \<^verbatim>\<open>time.time()\<close> taken
  when \<open>t\<close> is \<^verbatim>\<open>None\<close> or zero.
\<close>

definition log_batch ::
  "metrics \<Rightarrow> real \<Rightarrow> string \<Rightarrow> bool \<Rightarrow> real option \<Rightarrow> real \<Rightarrow> error + cell list" where
  "log_batch m start_time mode end_of_epoch t now =
     (let t' = (case t of None \<Rightarrow> now | Some x \<Rightarrow> if x = 0 then now else x) in
      case splits m mode of
        None \<Rightarrow> Inl (KeyError mode)
      | Some d \<Rightarrow>
          let be = (if end_of_epoch then ''epoch'' else ''batch'') in
          bind_res (getitem d (be @ ''-drmsd'')) (\<lambda>c0.
          bind_res (getitem d (be @ ''-ln-drmsd'')) (\<lambda>c1.
          bind_res (getitem d (be @ ''-mse'')) (\<lambda>mse.
          bind_res (np_sqrt mse) (\<lambda>c2.
          bind_res (getitem d (be @ ''-rmsd'')) (\<lambda>c3.
          bind_res (getitem d (be @ ''-combined'')) (\<lambda>c4.
          bind_res (last_item (history_lr m)) (\<lambda>lr.
          bind_res (getitem d ''speed'') (\<lambda>c9.
            Inr [CVal c0, CVal c1, CVal c2, CVal c3, CVal c4, CVal (VNum lr), CStr mode,
                 CStr ''epoch'', CVal (VNum (py_round (Fin (t' - start_time)) 4)),
                 CVal c9])))))))))"

definition prepare_log_header :: "args \<Rightarrow> string" where
  "prepare_log_header a =
     (if combined_loss a
      then ''drmsd,ln_drmsd,rmse,rmsd,combined,lr,mode,granularity,time,speed'' @ [CHR 0x0A]
      else ''drmsd,ln_drmsd,rmse,rmsd,lr,mode,granularity,time,speed'' @ [CHR 0x0A])"

text \<open>The column names a reader of the file finds in the header line.\<close>

fun split_on :: "char \<Rightarrow> string \<Rightarrow> string list" where
  "split_on c [] = [[]]"
| "split_on c (x # xs) =
     (if x = c then [] # split_on c xs
      else (case split_on c xs of [] \<Rightarrow> [[x]] | w # ws \<Rightarrow> (x # w) # ws))"

definition header_columns :: "string \<Rightarrow> string list" where
  "header_columns h = split_on (CHR '','') (takeWhile (\<lambda>c. c \<noteq> CHR 0x0A) h)"

section \<open>Logging at the end of a training batch\<close>

text \<open>
  What the logging functions do to the outside world is a list of events, oldest first.
  The text of a progress line is fixed-precision float formatting and is not modelled;
  the fixed messages are.
\<close>

datatype event =
    WandbLog "string list" bool
  | WriteRow "cell list"
  | SetDescription
  | PrintStatusLine
  | Print string
  | LogStructure

definition len_check :: "pyval \<Rightarrow> error + nat" where
  "len_check v = (case v of VList xs \<Rightarrow> Inr (length xs) | _ \<Rightarrow> Inl TypeError)"

text \<open>
  \<^verbatim>\<open>print_status("train_epoch", args, (pbar, metrics, src_seq))\<close>: the reads of the
  metrics, in the order of the source, and then one progress line, on the progress bar
  or (with \<^verbatim>\<open>args.cluster\<close>) on standard output.
\<close>

definition print_status_train_epoch :: "args \<Rightarrow> metrics \<Rightarrow> error + event" where
  "print_status_train_epoch a m =
     bind_res (last_item (history_lr m)) (\<lambda>cur_lr.
     case splits m ''train'' of
       None \<Rightarrow> Inl (KeyError ''train'')
     | Some d \<Rightarrow>
         bind_res (getitem d ''batch-history'') (\<lambda>training_losses.
         bind_res (getitem d ''batch-drmsd'') (\<lambda>train_drmsd_loss.
         bind_res (getitem d ''batch-mse'') (\<lambda>train_mse_loss.
         bind_res (getitem d ''batch-combined'') (\<lambda>train_comb_loss.
         bind_res (getitem d ''batch-time'') (\<lambda>batch_time.
         bind_res (if combined_loss a then Inr train_comb_loss
                   else getitem d ''batch-ln-drmsd'') (\<lambda>loss.
         bind_res (getitem d ''speed'') (\<lambda>speed.
         bind_res (len_check training_losses) (\<lambda>n.
           if \<not> cluster a then
             bind_res (num_of train_drmsd_loss) (\<lambda>x0.
             bind_res (num_of train_mse_loss) (\<lambda>x1.
             bind_res (num_of train_comb_loss) (\<lambda>x2.
             bind_res (getitem d ''batch-ln-drmsd'') (\<lambda>lnd.
             bind_res (num_of lnd) (\<lambda>x3. Inr SetDescription)))))
           else
             bind_res (num_of loss) (\<lambda>x0. Inr PrintStatusLine))))))))))"

text \<open>
  \<^verbatim>\<open>do_train_batch_logging\<close>.  The scalar arguments are the \<^verbatim>\<open>.item()\<close> values of the
  loss tensors, \<open>cur_lr\<close> is \<^verbatim>\<open>optimizer.cur_lr\<close>, and \<open>t1\<close>, \<open>t2\<close>, \<open>t3\<close> are the readings
  of the clock in \<^verbatim>\<open>update_metrics\<close> (twice) and \<^verbatim>\<open>log_batch\<close>.  The function is written in
  two parts: \<open>train_batch_records\<close> is the body up to and including \<^verbatim>\<open>print_status\<close>, and
  \<open>do_train_batch_logging\<close> adds the NaN check and the structure log.  \<^verbatim>\<open>sys.exit(1)\<close> is
  the error \<open>SystemExit 1\<close>.
\<close>

definition do_log_str :: "args \<Rightarrow> int \<Rightarrow> bool" where
  "do_log_str a step = (step = 0 \<or> log_structure_step a mod step = 0)"

definition do_wandb :: "args \<Rightarrow> int \<Rightarrow> bool" where
  "do_wandb a step = (step = 0 \<or> log_wandb_step a mod step = 0)"

definition train_batch_records ::
  "metrics \<Rightarrow> pyfloat \<Rightarrow> pyfloat \<Rightarrow> pyfloat \<Rightarrow> pyfloat \<Rightarrow> int list list \<Rightarrow> pyfloat \<Rightarrow>
   pyfloat \<Rightarrow> args \<Rightarrow> real \<Rightarrow> int \<Rightarrow> real \<Rightarrow> real \<Rightarrow> real \<Rightarrow> event list \<times> (error + metrics)"
  where
  "train_batch_records m d_loss ln_d_loss m_loss c_loss src_seq loss cur_lr a start_time
     step t1 t2 t3 =
     (case update_metrics m ''train'' d_loss ln_d_loss m_loss c_loss src_seq None
             (Some loss) True t1 t2 of
        Inl e \<Rightarrow> ([], Inl e)
      | Inr m1 \<Rightarrow>
          let ev1 = (if do_wandb a step
                     then [WandbLog [''Train RMSE'', ''Train DRMSD'', ''Train ln-DRMSD'',
                                     ''Train Combined Loss'', ''Train Speed'']
                             (\<not> lr_scheduling a \<and> \<not> do_log_str a step)]
                     else []);
              m2 = (if lr_scheduling a
                    then m1\<lparr>history_lr := history_lr m1 @ [cur_lr]\<rparr> else m1);
              ev2 = (if lr_scheduling a \<and> do_wandb a step
                     then [WandbLog [''Learning Rate''] (\<not> do_log_str a step)] else [])
          in case log_batch m2 start_time ''train'' False None t3 of
               Inl e \<Rightarrow> (ev1 @ ev2, Inl e)
             | Inr row \<Rightarrow>
                 (case print_status_train_epoch a m2 of
                    Inl e \<Rightarrow> (ev1 @ ev2 @ [WriteRow row], Inl e)
                  | Inr st \<Rightarrow> (ev1 @ ev2 @ [WriteRow row] @ [st], Inr m2)))"

definition nan_message :: string where
  "nan_message = ''A nan loss has occurred. Exiting training.''"

definition do_train_batch_logging ::
  "metrics \<Rightarrow> pyfloat \<Rightarrow> pyfloat \<Rightarrow> pyfloat \<Rightarrow> pyfloat \<Rightarrow> int list list \<Rightarrow> pyfloat \<Rightarrow>
   pyfloat \<Rightarrow> args \<Rightarrow> real \<Rightarrow> int \<Rightarrow> real \<Rightarrow> real \<Rightarrow> real \<Rightarrow> event list \<times> (error + metrics)"
  where
  "do_train_batch_logging m d_loss ln_d_loss m_loss c_loss src_seq loss cur_lr a start_time
     step t1 t2 t3 =
     (case train_batch_records m d_loss ln_d_loss m_loss c_loss src_seq loss cur_lr a
             start_time step t1 t2 t3 of
        (evs, Inl e) \<Rightarrow> (evs, Inl e)
      | (evs, Inr m2) \<Rightarrow>
          if isnan loss then (evs @ [Print nan_message], Inl (SystemExit 1))
          else if do_log_str a step then (evs @ [LogStructure], Inr m2)
          else (evs, Inr m2))"

text \<open>
  A state in which the logging of a training batch at clock reading \<open>t1\<close> finds all it reads:
  the training split has its four running sums, a batch time other than \<open>t1\<close> (the speed
  divides by the difference), the two batch-level lists and a \<^verbatim>\<open>batch-rmsd\<close> entry, and the
  learning-rate history is not empty once the batch is recorded.  This is the state that
  \<^verbatim>\<open>init_metrics\<close>, \<^verbatim>\<open>reset_metrics_for_epoch\<close> and the batches before leave behind.
\<close>

definition has_num :: "pydict \<Rightarrow> string \<Rightarrow> bool" where
  "has_num d k = (case d k of Some (VNum x) \<Rightarrow> True | _ \<Rightarrow> False)"

definition has_list :: "pydict \<Rightarrow> string \<Rightarrow> bool" where
  "has_list d k = (case d k of Some (VList xs) \<Rightarrow> True | _ \<Rightarrow> False)"

definition train_ready :: "args \<Rightarrow> metrics \<Rightarrow> real \<Rightarrow> bool" where
  "train_ready a m t1 =
     (case splits m ''train'' of
        None \<Rightarrow> False
      | Some d \<Rightarrow>
          has_num d ''epoch-drmsd'' \<and> has_num d ''epoch-ln-drmsd'' \<and>
          has_num d ''epoch-mse'' \<and> has_num d ''epoch-combined'' \<and>
          has_num d ''batch-time'' \<and> d ''batch-time'' \<noteq> Some (VNum (Fin t1)) \<and>
          has_list d ''speed-history'' \<and> has_list d ''batch-history'' \<and>
          d ''batch-rmsd'' \<noteq> None \<and>
          (lr_scheduling a \<or> history_lr m \<noteq> []))"

section \<open>Plot titles as file names\<close>

text \<open>
  \<^verbatim>\<open>str.replace(old, new)\<close>: the occurrences of \<open>old\<close> are found from the left and do
  not overlap.  Titles are byte strings here; \<^verbatim>\<open>str.lower\<close> is modelled on ASCII letters.
\<close>

function replace_str :: "string \<Rightarrow> string \<Rightarrow> string \<Rightarrow> string" where
  "replace_str old new [] = (if old = [] then new else [])"
| "replace_str old new (c # cs) =
     (if old = [] then new @ c # replace_str old new cs
      else if prefix old (c # cs)
        then new @ replace_str old new (drop (length old) (c # cs))
      else c # replace_str old new cs)"
  by pat_completeness auto
termination
  by (relation "measure (\<lambda>(old, new, s). length s)") auto

text \<open>\<^verbatim>\<open>s.find(c)\<close>: the first index of \<open>c\<close>, or \<open>-1\<close>.\<close>

fun find_char :: "char \<Rightarrow> string \<Rightarrow> int" where
  "find_char c [] = - 1"
| "find_char c (x # xs) =
     (if x = c then 0 else (let r = find_char c xs in if r < 0 then - 1 else r + 1))"

definition is_upper :: "char \<Rightarrow> bool" where
  "is_upper c = (65 \<le> (of_char c :: nat) \<and> (of_char c :: nat) \<le> 90)"

definition lower_char :: "char \<Rightarrow> char" where
  "lower_char c = (if is_upper c then char_of ((of_char c :: nat) + 32) else c)"

definition replace_chars :: string where
  "replace_chars = '' ,=[]().$''"

definition title_to_fn :: "string \<Rightarrow> string" where
  "title_to_fn title =
     (let t1 = replace_str '', '' ''_''
                 (replace_str '', )'' ''_'' (replace_str '' = ['' ''_'' title));
          t2 = drop (nat (find_char (CHR 0x0A) t1 + 1)) t1;
          t3 = foldl (\<lambda>t rc. replace_str [rc] ''_'' t) t2 replace_chars
      in map lower_char t3)"

text \<open>
  What the loop over \<^verbatim>\<open>replace_chars\<close> followed by \<^verbatim>\<open>lower()\<close> makes of one character.
\<close>

definition sanitise_char :: "char \<Rightarrow> char" where
  "sanitise_char c = (if c \<in> set replace_chars then CHR ''_'' else lower_char c)"

text \<open>
  Classes of ASCII characters.  After the specification's words: the characters of a title
  made of letters, digits and the punctuation that is replaced; the characters of a file
  name made of lowercase letters, digits and underscores; and the characters other than
  the newline and the punctuation of the time-range annotation.
\<close>

definition is_ascii :: "char \<Rightarrow> bool" where
  "is_ascii c = ((of_char c :: nat) < 128)"

definition is_lower :: "char \<Rightarrow> bool" where
  "is_lower c = (97 \<le> (of_char c :: nat) \<and> (of_char c :: nat) \<le> 122)"

definition is_digit :: "char \<Rightarrow> bool" where
  "is_digit c = (48 \<le> (of_char c :: nat) \<and> (of_char c :: nat) \<le> 57)"

definition title_char :: "char \<Rightarrow> bool" where
  "title_char c = (is_upper c \<or> is_lower c \<or> is_digit c \<or> c \<in> set replace_chars)"

definition safe_char :: "char \<Rightarrow> bool" where
  "safe_char c = (is_lower c \<or> is_digit c \<or> c = CHR ''_'')"

definition plain_char :: "char \<Rightarrow> bool" where
  "plain_char c = (is_ascii c \<and> c \<noteq> CHR 0x0A \<and> c \<notin> set '',=[]().$'')"

section \<open>Runs of the accumulator and of the early-stopping evaluator\<close>

text \<open>The arguments of one call of \<^verbatim>\<open>update_metrics\<close> on a given split.\<close>

record batch_call =
  b_drmsd :: pyfloat
  b_ln_drmsd :: pyfloat
  b_mse :: pyfloat
  b_combined :: pyfloat
  b_src_seq :: "int list list"
  b_rmsd :: "pyfloat option"
  b_tracking_loss :: "pyfloat option"
  b_batch_level :: bool
  b_t1 :: real
  b_t2 :: real

definition update_call :: "string \<Rightarrow> batch_call \<Rightarrow> metrics \<Rightarrow> error + metrics" where
  "update_call mode c m =
     update_metrics m mode (b_drmsd c) (b_ln_drmsd c) (b_mse c) (b_combined c) (b_src_seq c)
       (b_rmsd c) (b_tracking_loss c) (b_batch_level c) (b_t1 c) (b_t2 c)"


text \<open>The four operations on the metrics state, and a run of them.\<close>

datatype operation =
    OpReset string real
  | OpUpdate string batch_call
  | OpFinalize string int
  | OpEarlyStop args int

fun apply_operation :: "operation \<Rightarrow> metrics \<Rightarrow> error + metrics" where
  "apply_operation (OpReset mode now) m = reset_metrics_for_epoch m mode now"
| "apply_operation (OpUpdate mode c) m = update_call mode c m"
| "apply_operation (OpFinalize mode n) m = update_metrics_end_of_epoch m mode n"
| "apply_operation (OpEarlyStop a epoch_i) m = update_loss_trackers a epoch_i m"

fun run_operations :: "operation list \<Rightarrow> metrics \<Rightarrow> error + metrics" where
  "run_operations [] m = Inr m"
| "run_operations (op # ops) m = bind_res (apply_operation op m) (run_operations ops)"

text \<open>\<^verbatim>\<open>metrics[mode][k]\<close>, when both keys exist.\<close>

definition field :: "metrics \<Rightarrow> string \<Rightarrow> string \<Rightarrow> pyval option" where
  "field m mode k = (case splits m mode of None \<Rightarrow> None | Some d \<Rightarrow> d k)"

definition field_after :: "operation list \<Rightarrow> metrics \<Rightarrow> string \<Rightarrow> string \<Rightarrow> pyval option" where
  "field_after ops m mode k =
     (case run_operations ops m of Inl e \<Rightarrow> None | Inr m' \<Rightarrow> field m' mode k)"

text \<open>The loss that \<^verbatim>\<open>update_loss_trackers\<close> compares, when it is there and a number.\<close>

definition chosen_loss :: "args \<Rightarrow> metrics \<Rightarrow> pyfloat option" where
  "chosen_loss a m =
     (case field m (compare_mode a) (loss_key a) of
        Some (VNum l) \<Rightarrow> Some l
      | _ \<Rightarrow> None)"

text \<open>
  Modelled from the spec: the training loop that calls the evaluator is not in src.  The
  evaluation is "applied once per completed epoch": at the end of epoch \<open>i\<close> the epoch
  mean of the comparison split is in \<^verbatim>\<open>metrics[mode]["epoch-<loss>"]\<close> and
  \<^verbatim>\<open>update_loss_trackers(args, i, metrics)\<close> is called; the first exception ends the
  loop, and the result names the epoch at which it was raised.
\<close>

definition store_epoch_mean :: "args \<Rightarrow> pyfloat \<Rightarrow> metrics \<Rightarrow> metrics" where
  "store_epoch_mean a l m =
     (case splits m (compare_mode a) of
        None \<Rightarrow> m
      | Some d \<Rightarrow>
          m\<lparr>splits := (splits m)(compare_mode a \<mapsto> d(loss_key a \<mapsto> VNum l))\<rparr>)"

fun early_stopping_run ::
  "args \<Rightarrow> int \<Rightarrow> pyfloat list \<Rightarrow> metrics \<Rightarrow> (error \<times> int) + metrics" where
  "early_stopping_run a epoch_i [] m = Inr m"
| "early_stopping_run a epoch_i (l # ls) m =
     (case update_loss_trackers a epoch_i (store_epoch_mean a l m) of
        Inl e \<Rightarrow> Inl (e, epoch_i)
      | Inr m' \<Rightarrow> early_stopping_run a (epoch_i + 1) ls m')"

text \<open>\<open>a\<close> is \<open>b\<close> or below it, in the order of Python's \<^verbatim>\<open><\<close>.\<close>

definition fle :: "pyfloat \<Rightarrow> pyfloat \<Rightarrow> bool" where
  "fle a b = (a = b \<or> flt a b)"



text \<open>
  A list stored under a key is extended at its end, or left as it is.  The history lists
  of a split are those under the four keys below; the learning-rate history is global.
\<close>

definition extends_at :: "pydict \<Rightarrow> pydict \<Rightarrow> string \<Rightarrow> bool" where
  "extends_at d d' k =
     (\<forall>xs. d k = Some (VList xs) \<longrightarrow> (\<exists>ys. d' k = Some (VList (xs @ ys))))"

definition epoch_history_keys :: "string list" where
  "epoch_history_keys = [''epoch-history-drmsd'', ''epoch-history-combined'']"

definition batch_history_keys :: "string list" where
  "batch_history_keys = [''batch-history'', ''speed-history'']"

text \<open>Whether an operation is the reset of the split \<open>s\<close>.\<close>

fun resets :: "string \<Rightarrow> operation \<Rightarrow> bool" where
  "resets s (OpReset mode now) = (mode = s)"
| "resets s _ = False"




text \<open>Whether a call returned, and the state a run of operations ends in when it returns.\<close>

definition is_ok :: "'e + 'a \<Rightarrow> bool" where
  "is_ok r = (case r of Inl e \<Rightarrow> False | Inr v \<Rightarrow> True)"

definition state_after :: "operation list \<Rightarrow> metrics \<Rightarrow> metrics" where
  "state_after ops m = (case run_operations ops m of Inl e \<Rightarrow> m | Inr m' \<Rightarrow> m')"

section \<open>Concrete inputs\<close>

text \<open>
  A configuration with early stopping after two stagnant epochs; a training batch as
  \<^verbatim>\<open>do_train_batch_logging\<close> passes it to \<^verbatim>\<open>update_metrics\<close> and an evaluation batch as
  \<^verbatim>\<open>do_eval_epoch_logging\<close> does; the state after the first training batch of the first
  epoch, and the state after a first validation batch recorded at batch level.
\<close>

definition demo_args :: args where
  "demo_args =
     \<lparr> train_only = False, combined_loss = False, early_stopping = Some 2,
       lr_scheduling = False, cluster = False, log_structure_step = 1, log_wandb_step = 1 \<rparr>"

definition demo_call :: "real \<Rightarrow> real \<Rightarrow> batch_call" where
  "demo_call x t =
     \<lparr> b_drmsd = Fin x, b_ln_drmsd = Fin 1, b_mse = Fin 4, b_combined = Fin 7,
       b_src_seq = [[1, 0], [0, 0]], b_rmsd = None, b_tracking_loss = Some (Fin 7),
       b_batch_level = True, b_t1 = t, b_t2 = t \<rparr>"

definition demo_eval_call :: "real \<Rightarrow> real \<Rightarrow> real \<Rightarrow> batch_call" where
  "demo_eval_call x r t =
     \<lparr> b_drmsd = Fin x, b_ln_drmsd = Fin 1, b_mse = Fin 4, b_combined = Fin 7,
       b_src_seq = [[1, 0], [0, 0]], b_rmsd = Some (Fin r), b_tracking_loss = None,
       b_batch_level = False, b_t1 = t, b_t2 = t \<rparr>"

definition demo_state :: metrics where
  "demo_state =
     state_after [OpReset ''train'' 0, OpUpdate ''train'' (demo_call 3 1)]
       (init_metrics demo_args)"

definition demo_valid_state :: metrics where
  "demo_valid_state =
     state_after
       [OpReset ''valid'' 0,
        OpUpdate ''valid'' ((demo_eval_call 3 2 1)\<lparr>b_batch_level := True\<rparr>)]
       (init_metrics demo_args)"

text \<open>
  The early-stopping scenario: combined-loss comparison on the validation split with
  patience 2, and the state after the epochs 1 and 2 with the means 5 and 4.
\<close>

definition scenario_args :: args where
  "scenario_args =
     \<lparr> train_only = False, combined_loss = True, early_stopping = Some 2,
       lr_scheduling = False, cluster = False, log_structure_step = 1, log_wandb_step = 1 \<rparr>"

definition scenario_state :: metrics where
  "scenario_state =
     (case early_stopping_run scenario_args 1 [Fin 5, Fin 4] (init_metrics scenario_args) of
        Inl e \<Rightarrow> init_metrics scenario_args
      | Inr m \<Rightarrow> m)"

text \<open>
  One validation epoch of a single batch with early-stopping evaluation, the state after
  it, and the operations of the epoch that follows.
\<close>

definition first_epoch_state :: metrics where
  "first_epoch_state =
     state_after
       [OpReset ''valid'' 0, OpUpdate ''valid'' (demo_eval_call 3 2 1),
        OpFinalize ''valid'' 1, OpEarlyStop demo_args 1]
       (init_metrics demo_args)"

definition second_epoch :: "operation list" where
  "second_epoch =
     [OpReset ''valid'' 2, OpUpdate ''valid'' (demo_eval_call 5 2 3), OpFinalize ''valid'' 1,
      OpEarlyStop demo_args 2]"


section \<open>Basic facts\<close>

lemma bind_res_Inr: "bind_res r f = Inr y \<longleftrightarrow> (\<exists>v. r = Inr v \<and> f v = Inr y)"
  by (cases r) (simp_all add: bind_res_def)

lemma bind_res_Inl:
  "bind_res r f = Inl e \<longleftrightarrow> (r = Inl e \<or> (\<exists>v. r = Inr v \<and> f v = Inl e))"
  by (cases r) (simp_all add: bind_res_def)

lemma is_ok_iff: "is_ok r \<longleftrightarrow> (\<exists>v. r = Inr v)"
  by (cases r) (simp_all add: is_ok_def)

lemma state_after_eq: "is_ok (run_operations ops m) \<Longrightarrow> run_operations ops m = Inr (state_after ops m)"
  by (cases "run_operations ops m") (simp_all add: is_ok_def state_after_def)

lemmas eval_defs = update_call_def update_metrics_def
  update_split_def update_speed_def add_epoch_sums_def set_batch_fields_def
  reset_metrics_for_epoch_def reset_split_def init_metrics_def empty_histories_def
  bind_res_def getitem_def iadd_def idiv_def append_to_def num_res_def fsub_def truthy_def
  round_half_even_def demo_args_def demo_call_def demo_eval_call_def Let_def field_def
  field_after_def state_after_def update_metrics_end_of_epoch_def finalize_split_def

subsection \<open>The dictionary operations\<close>

lemma getitem_Inr: "getitem d k = Inr v \<longleftrightarrow> d k = Some v"
  by (simp add: getitem_def split: option.splits)

lemma num_of_Inr: "num_of v = Inr x \<longleftrightarrow> v = VNum x"
  by (cases v) auto

lemma iadd_Inr:
  "iadd k x d = Inr d' \<longleftrightarrow> (\<exists>a. d k = Some (VNum a) \<and> d' = d(k \<mapsto> VNum (fadd a x)))"
  by (auto simp: iadd_def split: option.splits pyval.splits)

lemma iadd_other: "iadd k x d = Inr d' \<Longrightarrow> j \<noteq> k \<Longrightarrow> d' j = d j"
  by (auto simp: iadd_Inr)

lemma idiv_Inr:
  "idiv k n d = Inr d' \<longleftrightarrow>
     (\<exists>a q. d k = Some (VNum a) \<and> fdiv a (Fin (of_int n)) = Inr q \<and> d' = d(k \<mapsto> VNum q))"
  by (auto simp: idiv_def bind_res_Inr split: option.splits pyval.splits)

lemma idiv_other: "idiv k n d = Inr d' \<Longrightarrow> j \<noteq> k \<Longrightarrow> d' j = d j"
  by (auto simp: idiv_Inr)

lemma append_to_Inr:
  "append_to k v d = Inr d' \<longleftrightarrow>
     (\<exists>xs. d k = Some (VList xs) \<and> d' = d(k \<mapsto> VList (xs @ [v])))"
  by (auto simp: append_to_def split: option.splits pyval.splits)

lemma append_to_other: "append_to k v d = Inr d' \<Longrightarrow> j \<noteq> k \<Longrightarrow> d' j = d j"
  by (auto simp: append_to_Inr)

subsection \<open>The start of an epoch\<close>

lemma reset_metrics_for_epoch_Inr:
  "reset_metrics_for_epoch m mode now = Inr m' \<longleftrightarrow>
     (\<exists>d. splits m mode = Some d \<and>
        m' = m\<lparr>splits := (splits m)(mode \<mapsto> reset_split mode now d)\<rparr>)"
  by (auto simp: reset_metrics_for_epoch_def split: option.splits)


lemma reset_split_epoch_histories:
  "reset_split mode now d ''epoch-history-drmsd'' = d ''epoch-history-drmsd''"
  "reset_split mode now d ''epoch-history-combined'' = d ''epoch-history-combined''"
  by (simp_all add: reset_split_def)

subsection \<open>What one call of the accumulator leaves alone\<close>

lemma set_batch_fields_other:
  assumes "j \<noteq> ''batch-drmsd''" "j \<noteq> ''batch-ln-drmsd''" "j \<noteq> ''batch-mse''"
    and "j \<noteq> ''batch-combined''" "j \<noteq> ''batch-rmsd''"
  shows "set_batch_fields drmsd lnd ms c rmsd d j = d j"
  using assms by (cases rmsd) (simp_all add: set_batch_fields_def Let_def)

lemma set_batch_fields_zero_rmsd:
  "set_batch_fields drmsd lnd ms c (Some (Fin 0)) d ''batch-rmsd'' = d ''batch-rmsd''"
  by (simp add: set_batch_fields_def Let_def truthy_def)

lemma rmsd_step_other:
  assumes "(case rmsd of None \<Rightarrow> Inr d4
            | Some r \<Rightarrow> if truthy r then iadd ''epoch-rmsd'' r d4 else Inr d4) = Inr d'"
    and "j \<noteq> ''epoch-rmsd''"
  shows "d' j = d4 j"
proof (cases rmsd)
  case None
  with assms show ?thesis by simp
next
  case (Some r)
  show ?thesis
  proof (cases "truthy r")
    case True
    with Some assms have "iadd ''epoch-rmsd'' r d4 = Inr d'" by simp
    from iadd_other [OF this assms(2)] show ?thesis .
  next
    case False
    with Some assms show ?thesis by simp
  qed
qed

lemma add_epoch_sums_Inr:
  "add_epoch_sums drmsd lnd ms c rmsd d = Inr d' \<longleftrightarrow>
     (\<exists>d1 d2 d3 d4.
        iadd ''epoch-drmsd'' drmsd d = Inr d1 \<and>
        iadd ''epoch-ln-drmsd'' lnd d1 = Inr d2 \<and>
        iadd ''epoch-mse'' ms d2 = Inr d3 \<and>
        iadd ''epoch-combined'' c d3 = Inr d4 \<and>
        (case rmsd of None \<Rightarrow> Inr d4
         | Some r \<Rightarrow> if truthy r then iadd ''epoch-rmsd'' r d4 else Inr d4) = Inr d')"
  unfolding add_epoch_sums_def bind_res_Inr by blast

lemma add_epoch_sums_other:
  assumes "add_epoch_sums drmsd lnd ms c rmsd d = Inr d'"
    and "j \<noteq> ''epoch-drmsd''" "j \<noteq> ''epoch-ln-drmsd''" "j \<noteq> ''epoch-mse''"
    and "j \<noteq> ''epoch-combined''" "j \<noteq> ''epoch-rmsd''"
  shows "d' j = d j"
proof -
  from assms(1) obtain d1 d2 d3 d4 where
    s1: "iadd ''epoch-drmsd'' drmsd d = Inr d1"
    and s2: "iadd ''epoch-ln-drmsd'' lnd d1 = Inr d2"
    and s3: "iadd ''epoch-mse'' ms d2 = Inr d3"
    and s4: "iadd ''epoch-combined'' c d3 = Inr d4"
    and s5: "(case rmsd of None \<Rightarrow> Inr d4
            | Some r \<Rightarrow> if truthy r then iadd ''epoch-rmsd'' r d4 else Inr d4) = Inr d'"
    unfolding add_epoch_sums_Inr by blast
  have "d' j = d4 j" using rmsd_step_other [OF s5 assms(6)] .
  also have "d4 j = d3 j" using iadd_other [OF s4 assms(5)] .
  also have "d3 j = d2 j" using iadd_other [OF s3 assms(4)] .
  also have "d2 j = d1 j" using iadd_other [OF s2 assms(3)] .
  also have "d1 j = d j" using iadd_other [OF s1 assms(2)] .
  finally show ?thesis .
qed

lemma add_epoch_sums_zero_rmsd:
  assumes "add_epoch_sums drmsd lnd ms c (Some (Fin 0)) d = Inr d'"
  shows "d' ''epoch-rmsd'' = d ''epoch-rmsd''"
proof -
  from assms obtain d1 d2 d3 where
    s1: "iadd ''epoch-drmsd'' drmsd d = Inr d1"
    and s2: "iadd ''epoch-ln-drmsd'' lnd d1 = Inr d2"
    and s3: "iadd ''epoch-mse'' ms d2 = Inr d3"
    and s4: "iadd ''epoch-combined'' c d3 = Inr d'"
    unfolding add_epoch_sums_Inr by (auto simp: truthy_def)
  have "d' ''epoch-rmsd'' = d3 ''epoch-rmsd''" using iadd_other [OF s4] by simp
  also have "\<dots> = d2 ''epoch-rmsd''" using iadd_other [OF s3] by simp
  also have "\<dots> = d1 ''epoch-rmsd''" using iadd_other [OF s2] by simp
  also have "\<dots> = d ''epoch-rmsd''" using iadd_other [OF s1] by simp
  finally show ?thesis .
qed

lemma update_speed_other:
  assumes "update_speed src t1 t2 d = Inr d'"
    and "k \<noteq> ''speed''" "k \<noteq> ''batch-time''" "k \<noteq> ''speed-history''"
  shows "d' k = d k"
  using assms by (auto simp: update_speed_def bind_res_Inr Let_def append_to_Inr)

lemma tracking_other:
  assumes "(case trk of None \<Rightarrow> Inr d2
            | Some l \<Rightarrow> if truthy l then append_to ''batch-history'' (VNum l) d2 else Inr d2)
           = Inr d'"
    and "k \<noteq> ''batch-history''"
  shows "d' k = d2 k"
  using assms by (cases trk) (auto simp: append_to_Inr split: if_splits)

lemma update_split_Inr:
  "update_split drmsd lnd ms c src rmsd trk bl t1 t2 d = Inr d' \<longleftrightarrow>
     (\<exists>d1 d2.
        add_epoch_sums drmsd lnd ms c rmsd
          (if bl then set_batch_fields drmsd lnd ms c rmsd d else d) = Inr d1 \<and>
        update_speed src t1 t2 d1 = Inr d2 \<and>
        (case trk of None \<Rightarrow> Inr d2
         | Some l \<Rightarrow> if truthy l then append_to ''batch-history'' (VNum l) d2 else Inr d2)
        = Inr d')"
  unfolding update_split_def bind_res_Inr by blast

lemma update_metrics_Inr:
  "update_metrics m mode drmsd lnd ms c src rmsd trk bl t1 t2 = Inr m' \<longleftrightarrow>
     (\<exists>d d'. splits m mode = Some d \<and>
        update_split drmsd lnd ms c src rmsd trk bl t1 t2 d = Inr d' \<and>
        m' = m\<lparr>splits := (splits m)(mode \<mapsto> d')\<rparr>)"
  by (auto simp: update_metrics_def bind_res_Inr split: option.splits)

lemma update_split_zero_rmsd:
  "update_split drmsd lnd ms c src (Some (Fin 0)) trk bl t1 t2 d =
   update_split drmsd lnd ms c src None trk bl t1 t2 d"
  by (simp add: update_split_def add_epoch_sums_def set_batch_fields_def truthy_def)

lemma update_split_zero_tracking:
  "update_split drmsd lnd ms c src rmsd (Some (Fin 0)) bl t1 t2 d =
   update_split drmsd lnd ms c src rmsd None bl t1 t2 d"
  by (simp add: update_split_def truthy_def)

lemma update_split_zero_rmsd_fields:
  assumes "update_split drmsd lnd ms c src (Some (Fin 0)) trk bl t1 t2 d = Inr d'"
  shows "d' ''batch-rmsd'' = d ''batch-rmsd'' \<and> d' ''epoch-rmsd'' = d ''epoch-rmsd''"
proof -
  from assms obtain d1 d2 where
    a: "add_epoch_sums drmsd lnd ms c (Some (Fin 0))
          (if bl then set_batch_fields drmsd lnd ms c (Some (Fin 0)) d else d) = Inr d1"
    and s: "update_speed src t1 t2 d1 = Inr d2"
    and t: "(case trk of None \<Rightarrow> Inr d2
             | Some l \<Rightarrow> if truthy l then append_to ''batch-history'' (VNum l) d2 else Inr d2)
            = Inr d'"
    unfolding update_split_Inr by blast
  have "d' ''batch-rmsd'' = d2 ''batch-rmsd'' \<and> d' ''epoch-rmsd'' = d2 ''epoch-rmsd''"
    using tracking_other [OF t] by simp
  moreover have "d2 ''batch-rmsd'' = d1 ''batch-rmsd'' \<and> d2 ''epoch-rmsd'' = d1 ''epoch-rmsd''"
    using update_speed_other [OF s] by simp
  moreover have "d1 ''batch-rmsd'' = d ''batch-rmsd''"
    using add_epoch_sums_other [OF a, of "''batch-rmsd''"]
    by (simp add: set_batch_fields_zero_rmsd split: if_splits)
  moreover have "d1 ''epoch-rmsd'' = d ''epoch-rmsd''"
    using add_epoch_sums_zero_rmsd [OF a]
    by (simp add: set_batch_fields_other split: if_splits)
  ultimately show ?thesis by simp
qed

lemma update_split_zero_tracking_fields:
  assumes "update_split drmsd lnd ms c src rmsd (Some (Fin 0)) bl t1 t2 d = Inr d'"
  shows "d' ''batch-history'' = d ''batch-history''"
proof -
  from assms obtain d1 where
    a: "add_epoch_sums drmsd lnd ms c rmsd
          (if bl then set_batch_fields drmsd lnd ms c rmsd d else d) = Inr d1"
    and s: "update_speed src t1 t2 d1 = Inr d'"
    unfolding update_split_Inr by (auto simp: truthy_def)
  have "d' ''batch-history'' = d1 ''batch-history''"
    using update_speed_other [OF s] by simp
  moreover have "d1 ''batch-history'' = d ''batch-history''"
    using add_epoch_sums_other [OF a, of "''batch-history''"]
    by (simp add: set_batch_fields_other split: if_splits)
  ultimately show ?thesis by simp
qed

subsection \<open>The end of an epoch\<close>

lemma finalize_split_Inr:
  "finalize_split mode n d = Inr d' \<longleftrightarrow>
     (\<exists>d1 d2 d3 d4 d5 c d6 dr.
        idiv ''epoch-drmsd'' n d = Inr d1 \<and>
        idiv ''epoch-ln-drmsd'' n d1 = Inr d2 \<and>
        idiv ''epoch-mse'' n d2 = Inr d3 \<and>
        idiv ''epoch-combined'' n d3 = Inr d4 \<and>
        (if mode = ''train'' then Inr (d4(''epoch-rmsd'' \<mapsto> VNone))
         else idiv ''epoch-rmsd'' n d4) = Inr d5 \<and>
        getitem d5 ''epoch-combined'' = Inr c \<and>
        append_to ''epoch-history-combined'' c d5 = Inr d6 \<and>
        getitem d6 ''epoch-drmsd'' = Inr dr \<and>
        append_to ''epoch-history-drmsd'' dr d6 = Inr d')"
  unfolding finalize_split_def bind_res_Inr by blast

lemma update_metrics_end_of_epoch_Inr:
  "update_metrics_end_of_epoch m mode n = Inr m' \<longleftrightarrow>
     (\<exists>d d'. splits m mode = Some d \<and> finalize_split mode n d = Inr d' \<and>
        m' = m\<lparr>splits := (splits m)(mode \<mapsto> d')\<rparr>)"
  by (auto simp: update_metrics_end_of_epoch_def bind_res_Inr split: option.splits)

lemma fdiv_Fin_Inr: "fdiv (Fin x) (Fin b) = Inr q \<Longrightarrow> b \<noteq> 0 \<and> q = Fin (x / b)"
  by (auto split: if_splits)

lemma finalize_split_rmsd:
  assumes "finalize_split mode n d = Inr d'"
  shows "(mode = ''train'' \<longrightarrow> d' ''epoch-rmsd'' = Some VNone) \<and>
         (mode \<noteq> ''train'' \<longrightarrow>
            (\<exists>s q. d ''epoch-rmsd'' = Some (VNum s) \<and> fdiv s (Fin (of_int n)) = Inr q \<and>
               d' ''epoch-rmsd'' = Some (VNum q)))"
proof -
  from assms obtain d1 d2 d3 d4 d5 c d6 dr where
    s1: "idiv ''epoch-drmsd'' n d = Inr d1"
    and s2: "idiv ''epoch-ln-drmsd'' n d1 = Inr d2"
    and s3: "idiv ''epoch-mse'' n d2 = Inr d3"
    and s4: "idiv ''epoch-combined'' n d3 = Inr d4"
    and s5: "(if mode = ''train'' then Inr (d4(''epoch-rmsd'' \<mapsto> VNone))
         else idiv ''epoch-rmsd'' n d4) = Inr d5"
    and s6: "append_to ''epoch-history-combined'' c d5 = Inr d6"
    and s7: "append_to ''epoch-history-drmsd'' dr d6 = Inr d'"
    unfolding finalize_split_Inr by blast
  have before: "d4 ''epoch-rmsd'' = d ''epoch-rmsd''"
    using idiv_other [OF s1, of "''epoch-rmsd''"] idiv_other [OF s2, of "''epoch-rmsd''"]
      idiv_other [OF s3, of "''epoch-rmsd''"] idiv_other [OF s4, of "''epoch-rmsd''"]
    by simp
  have after: "d' ''epoch-rmsd'' = d5 ''epoch-rmsd''"
    using append_to_other [OF s6, of "''epoch-rmsd''"]
      append_to_other [OF s7, of "''epoch-rmsd''"]
    by simp
  show ?thesis
  proof (cases "mode = ''train''")
    case True
    with s5 have "d5 = d4(''epoch-rmsd'' \<mapsto> VNone)" by simp
    with True after show ?thesis by simp
  next
    case False
    with s5 have "idiv ''epoch-rmsd'' n d4 = Inr d5" by simp
    then obtain s q where a: "d4 ''epoch-rmsd'' = Some (VNum s)"
      and b: "fdiv s (Fin (of_int n)) = Inr q" and c: "d5 = d4(''epoch-rmsd'' \<mapsto> VNum q)"
      unfolding idiv_Inr by blast
    have "d ''epoch-rmsd'' = Some (VNum s)" using a before by simp
    moreover have "d' ''epoch-rmsd'' = Some (VNum q)" using after c by simp
    ultimately show ?thesis using False b by blast
  qed
qed

subsection \<open>The order of floats\<close>

lemma flt_irrefl: "\<not> flt a a"
  by (cases a) simp_all

lemma flt_trans: "flt a b \<Longrightarrow> flt b c \<Longrightarrow> flt a c"
  by (cases a; cases b; cases c) simp_all

lemma fle_refl: "fle a a"
  by (simp add: fle_def)

lemma fle_trans: "fle a b \<Longrightarrow> fle b c \<Longrightarrow> fle a c"
  unfolding fle_def using flt_trans by blast

subsection \<open>The early-stopping evaluation\<close>

lemma history_key_neq: "history_key a \<noteq> loss_key a"
  by (simp add: history_key_def loss_key_def loss_str_def)

lemma update_loss_trackers_eval:
  assumes "splits m (compare_mode a) = Some d"
    and "d (loss_key a) = Some (VNum l)"
    and "d (history_key a) = Some h"
  shows "update_loss_trackers a i m =
     (if flt l (best_valid_loss_so_far m) then
        Inr (m\<lparr>best_valid_loss_so_far := l, epoch_last_improved := i,
               loss_to_compare := Some (VNum l),
               losses_to_compare := Some (compare_mode a, history_key a)\<rparr>)
      else if patience_exceeded a i m then Inl EarlyStoppingCondition
      else
        Inr (m\<lparr>loss_to_compare := Some (VNum l),
               losses_to_compare := Some (compare_mode a, history_key a)\<rparr>))"
  using assms by (simp add: update_loss_trackers_def getitem_def bind_res_def)

lemma update_loss_trackers_Inr:
  assumes "update_loss_trackers a i m = Inr m'"
  shows "\<exists>l. chosen_loss a m = Some l \<and>
     ((flt l (best_valid_loss_so_far m) \<and>
        m' = m\<lparr>best_valid_loss_so_far := l, epoch_last_improved := i,
               loss_to_compare := Some (VNum l),
               losses_to_compare := Some (compare_mode a, history_key a)\<rparr>) \<or>
      (\<not> flt l (best_valid_loss_so_far m) \<and> \<not> patience_exceeded a i m \<and>
        m' = m\<lparr>loss_to_compare := Some (VNum l),
               losses_to_compare := Some (compare_mode a, history_key a)\<rparr>))"
proof -
  from assms obtain d where d: "splits m (compare_mode a) = Some d"
    by (auto simp: update_loss_trackers_def split: option.splits)
  with assms obtain ltc hist l where
    "getitem d (loss_key a) = Inr ltc"
    and "getitem d (history_key a) = Inr hist"
    and "num_of ltc = Inr l"
    by (auto simp: update_loss_trackers_def bind_res_Inr)
  then have k: "d (loss_key a) = Some (VNum l)"
    and h: "d (history_key a) = Some hist"
    by (simp_all add: getitem_Inr num_of_Inr)
  have c: "chosen_loss a m = Some l"
    by (simp add: chosen_loss_def field_def d k)
  show ?thesis
  proof (cases "flt l (best_valid_loss_so_far m)")
    case True
    with assms update_loss_trackers_eval [OF d k h, of i] c show ?thesis by auto
  next
    case False
    with assms update_loss_trackers_eval [OF d k h, of i] c show ?thesis
      by (cases "patience_exceeded a i m") auto
  qed
qed

lemma operations_keep_trackers:
  assumes "apply_operation op m = Inr m'" and "\<And>a i. op \<noteq> OpEarlyStop a i"
  shows "best_valid_loss_so_far m' = best_valid_loss_so_far m \<and>
         epoch_last_improved m' = epoch_last_improved m \<and> history_lr m' = history_lr m"
proof (cases op)
  case (OpReset mode now)
  with assms(1) show ?thesis
    by (auto simp: reset_metrics_for_epoch_def split: option.splits)
next
  case (OpUpdate mode c)
  with assms(1) show ?thesis
    by (auto simp: update_call_def update_metrics_Inr)
next
  case (OpFinalize mode n)
  with assms(1) show ?thesis
    by (auto simp: update_metrics_end_of_epoch_Inr)
next
  case (OpEarlyStop a i)
  with assms(2) show ?thesis by blast
qed

lemma apply_operation_best:
  assumes "apply_operation op m = Inr m'"
  shows "fle (best_valid_loss_so_far m') (best_valid_loss_so_far m)"
proof (cases "\<exists>a i. op = OpEarlyStop a i")
  case True
  then obtain a i where "op = OpEarlyStop a i" by blast
  with assms have "update_loss_trackers a i m = Inr m'" by simp
  from update_loss_trackers_Inr [OF this] show ?thesis
    by (auto simp: fle_def)
next
  case False
  with operations_keep_trackers [OF assms] show ?thesis
    by (simp add: fle_def)
qed

lemma run_operations_best:
  "run_operations ops m = Inr m' \<Longrightarrow>
     fle (best_valid_loss_so_far m') (best_valid_loss_so_far m)"
proof (induction ops arbitrary: m)
  case Nil
  then show ?case by (simp add: fle_refl)
next
  case (Cons op ops)
  from Cons.prems obtain m1 where a: "apply_operation op m = Inr m1"
    and r: "run_operations ops m1 = Inr m'"
    by (auto simp: bind_res_Inr)
  from Cons.IH [OF r] apply_operation_best [OF a] show ?case
    by (rule fle_trans)
qed

subsection \<open>Runs without improvement\<close>

lemmas scenario_defs = scenario_args_def init_metrics_def empty_histories_def
  store_epoch_mean_def update_loss_trackers_def compare_mode_def loss_key_def history_key_def
  loss_str_def patience_exceeded_def getitem_def bind_res_def

lemma store_epoch_mean_simps:
  assumes "splits m (compare_mode a) = Some d"
  shows "splits (store_epoch_mean a l m) (compare_mode a) = Some (d(loss_key a \<mapsto> VNum l))"
    and "best_valid_loss_so_far (store_epoch_mean a l m) = best_valid_loss_so_far m"
    and "epoch_last_improved (store_epoch_mean a l m) = epoch_last_improved m"
  using assms by (simp_all add: store_epoch_mean_def)

lemma patience_exceeded_store:
  "patience_exceeded a i (store_epoch_mean a l m) = patience_exceeded a i m"
  by (simp add: patience_exceeded_def store_epoch_mean_def split: option.splits)

lemma stagnant_step:
  assumes "splits m (compare_mode a) = Some d" and "d (history_key a) = Some h"
    and "\<not> flt l (best_valid_loss_so_far m)"
  shows "update_loss_trackers a i (store_epoch_mean a l m) =
     (if patience_exceeded a i m then Inl EarlyStoppingCondition
      else Inr ((store_epoch_mean a l m)\<lparr>loss_to_compare := Some (VNum l),
             losses_to_compare := Some (compare_mode a, history_key a)\<rparr>))"
proof -
  let ?m = "store_epoch_mean a l m"
  have s: "splits ?m (compare_mode a) = Some (d(loss_key a \<mapsto> VNum l))"
    using assms(1) by (rule store_epoch_mean_simps)
  have k: "(d(loss_key a \<mapsto> VNum l)) (loss_key a) = Some (VNum l)" by simp
  have h: "(d(loss_key a \<mapsto> VNum l)) (history_key a) = Some h"
    using assms(2) history_key_neq [of a] by simp
  show ?thesis
    using update_loss_trackers_eval [OF s k h, of i] assms(1,3)
    by (simp add: store_epoch_mean_simps patience_exceeded_store)
qed

lemma run_stagnant_returns:
  assumes "early_stopping a = Some P" and "0 < P"
  shows "splits m (compare_mode a) = Some d \<Longrightarrow> d (history_key a) = Some h \<Longrightarrow>
     \<forall>l\<in>set ls. \<not> flt l (best_valid_loss_so_far m) \<Longrightarrow>
     i + int (length ls) \<le> epoch_last_improved m + P + 1 \<Longrightarrow>
     \<exists>m'. early_stopping_run a i ls m = Inr m' \<and>
        best_valid_loss_so_far m' = best_valid_loss_so_far m \<and>
        epoch_last_improved m' = epoch_last_improved m"
proof (induction ls arbitrary: m d i)
  case Nil
  then show ?case by simp
next
  case (Cons l ls)
  let ?m1 = "(store_epoch_mean a l m)\<lparr>loss_to_compare := Some (VNum l),
             losses_to_compare := Some (compare_mode a, history_key a)\<rparr>"
  from Cons.prems have nl: "\<not> flt l (best_valid_loss_so_far m)" by simp
  from Cons.prems(4) have "\<not> patience_exceeded a i m"
    using assms by (simp add: patience_exceeded_def)
  with stagnant_step [OF Cons.prems(1,2) nl, of i]
  have step: "update_loss_trackers a i (store_epoch_mean a l m) = Inr ?m1" by simp
  have s1: "splits ?m1 (compare_mode a) = Some (d(loss_key a \<mapsto> VNum l))"
    using store_epoch_mean_simps(1) [OF Cons.prems(1)] by simp
  have h1: "(d(loss_key a \<mapsto> VNum l)) (history_key a) = Some h"
    using Cons.prems(2) history_key_neq [of a] by simp
  have b1: "best_valid_loss_so_far ?m1 = best_valid_loss_so_far m"
    and e1: "epoch_last_improved ?m1 = epoch_last_improved m"
    using store_epoch_mean_simps(2,3) [OF Cons.prems(1)] by simp_all
  have "\<exists>m'. early_stopping_run a (i + 1) ls ?m1 = Inr m' \<and>
        best_valid_loss_so_far m' = best_valid_loss_so_far ?m1 \<and>
        epoch_last_improved m' = epoch_last_improved ?m1"
  proof (rule Cons.IH [OF s1 h1])
    show "\<forall>l\<in>set ls. \<not> flt l (best_valid_loss_so_far ?m1)"
      using Cons.prems(3) b1 by simp
    show "i + 1 + int (length ls) \<le> epoch_last_improved ?m1 + P + 1"
      using Cons.prems(4) e1 by simp
  qed
  with step b1 e1 show ?case by simp
qed

lemma run_stagnant_raises:
  assumes "early_stopping a = Some P" and "0 < P"
  shows "splits m (compare_mode a) = Some d \<Longrightarrow> d (history_key a) = Some h \<Longrightarrow>
     \<forall>l\<in>set ls. \<not> flt l (best_valid_loss_so_far m) \<Longrightarrow>
     i \<le> epoch_last_improved m + P + 1 \<Longrightarrow>
     epoch_last_improved m + P + 1 < i + int (length ls) \<Longrightarrow>
     early_stopping_run a i ls m =
       Inl (EarlyStoppingCondition, epoch_last_improved m + P + 1)"
proof (induction ls arbitrary: m d i)
  case Nil
  then show ?case by simp
next
  case (Cons l ls)
  let ?m1 = "(store_epoch_mean a l m)\<lparr>loss_to_compare := Some (VNum l),
             losses_to_compare := Some (compare_mode a, history_key a)\<rparr>"
  from Cons.prems have nl: "\<not> flt l (best_valid_loss_so_far m)" by simp
  show ?case
  proof (cases "i = epoch_last_improved m + P + 1")
    case True
    then have "patience_exceeded a i m"
      using assms by (simp add: patience_exceeded_def)
    with stagnant_step [OF Cons.prems(1,2) nl, of i] True show ?thesis by simp
  next
    case False
    with Cons.prems(4) have lt: "i < epoch_last_improved m + P + 1" by simp
    then have "\<not> patience_exceeded a i m"
      using assms by (simp add: patience_exceeded_def)
    with stagnant_step [OF Cons.prems(1,2) nl, of i]
    have step: "update_loss_trackers a i (store_epoch_mean a l m) = Inr ?m1" by simp
    have s1: "splits ?m1 (compare_mode a) = Some (d(loss_key a \<mapsto> VNum l))"
      using store_epoch_mean_simps(1) [OF Cons.prems(1)] by simp
    have h1: "(d(loss_key a \<mapsto> VNum l)) (history_key a) = Some h"
      using Cons.prems(2) history_key_neq [of a] by simp
    have b1: "best_valid_loss_so_far ?m1 = best_valid_loss_so_far m"
      and e1: "epoch_last_improved ?m1 = epoch_last_improved m"
      using store_epoch_mean_simps(2,3) [OF Cons.prems(1)] by simp_all
    have "early_stopping_run a (i + 1) ls ?m1 =
       Inl (EarlyStoppingCondition, epoch_last_improved ?m1 + P + 1)"
    proof (rule Cons.IH [OF s1 h1])
      show "\<forall>l\<in>set ls. \<not> flt l (best_valid_loss_so_far ?m1)"
        using Cons.prems(3) b1 by simp
      show "i + 1 \<le> epoch_last_improved ?m1 + P + 1" using lt e1 by simp
      show "epoch_last_improved ?m1 + P + 1 < i + 1 + int (length ls)"
        using Cons.prems(5) e1 by simp
    qed
    with step e1 show ?thesis by simp
  qed
qed

subsection \<open>Lists that are only extended\<close>

lemma extends_at_same: "d' k = d k \<Longrightarrow> extends_at d d' k"
  by (simp add: extends_at_def)

lemma extends_at_trans: "extends_at d d1 k \<Longrightarrow> extends_at d1 d2 k \<Longrightarrow> extends_at d d2 k"
  unfolding extends_at_def by (metis append.assoc)

lemma append_to_extends: "append_to j v d = Inr d' \<Longrightarrow> extends_at d d' k"
  by (auto simp: append_to_Inr extends_at_def)

lemma history_key_cases:
  assumes "k \<in> set epoch_history_keys \<union> set batch_history_keys"
  shows "k \<noteq> ''batch-drmsd''" "k \<noteq> ''batch-ln-drmsd''" "k \<noteq> ''batch-mse''"
    "k \<noteq> ''batch-combined''" "k \<noteq> ''batch-rmsd''" "k \<noteq> ''epoch-drmsd''"
    "k \<noteq> ''epoch-ln-drmsd''" "k \<noteq> ''epoch-mse''" "k \<noteq> ''epoch-combined''"
    "k \<noteq> ''epoch-rmsd''" "k \<noteq> ''speed''" "k \<noteq> ''batch-time''"
  using assms by (auto simp: epoch_history_keys_def batch_history_keys_def)

lemma update_speed_extends:
  assumes "update_speed src t1 t2 d = Inr d'" and "k \<noteq> ''speed''" "k \<noteq> ''batch-time''"
  shows "extends_at d d' k"
proof -
  from assms(1) obtain speed where
    a: "append_to ''speed-history'' speed
          (d(''speed'' \<mapsto> speed, ''batch-time'' \<mapsto> VNum (Fin t2))) = Inr d'"
    by (auto simp: update_speed_def bind_res_Inr Let_def)
  have "extends_at d (d(''speed'' \<mapsto> speed, ''batch-time'' \<mapsto> VNum (Fin t2))) k"
    using assms(2,3) by (simp add: extends_at_def)
  with append_to_extends [OF a] show ?thesis by (blast intro: extends_at_trans)
qed

lemma tracking_extends:
  assumes "(case trk of None \<Rightarrow> Inr d2
            | Some l \<Rightarrow> if truthy l then append_to ''batch-history'' (VNum l) d2 else Inr d2)
           = Inr d'"
  shows "extends_at d2 d' k"
  using assms
  by (cases trk) (auto simp: extends_at_same intro: append_to_extends split: if_splits)

lemma update_split_extends:
  assumes "update_split drmsd lnd ms c src rmsd trk bl t1 t2 d = Inr d'"
    and "k \<in> set epoch_history_keys \<union> set batch_history_keys"
  shows "extends_at d d' k"
proof -
  note nk = history_key_cases [OF assms(2)]
  from assms(1) obtain d1 d2 where
    a: "add_epoch_sums drmsd lnd ms c rmsd
          (if bl then set_batch_fields drmsd lnd ms c rmsd d else d) = Inr d1"
    and s: "update_speed src t1 t2 d1 = Inr d2"
    and t: "(case trk of None \<Rightarrow> Inr d2
             | Some l \<Rightarrow> if truthy l then append_to ''batch-history'' (VNum l) d2 else Inr d2)
            = Inr d'"
    unfolding update_split_Inr by blast
  have "(if bl then set_batch_fields drmsd lnd ms c rmsd d else d) k = d k"
    using nk by (simp add: set_batch_fields_other)
  moreover have "d1 k = (if bl then set_batch_fields drmsd lnd ms c rmsd d else d) k"
    using add_epoch_sums_other [OF a] nk by blast
  ultimately have "extends_at d d1 k" by (simp add: extends_at_same)
  moreover have "extends_at d1 d2 k" using update_speed_extends [OF s] nk by blast
  moreover have "extends_at d2 d' k" using t by (rule tracking_extends)
  ultimately show ?thesis by (blast intro: extends_at_trans)
qed

lemma finalize_split_extends:
  assumes "finalize_split mode n d = Inr d'"
    and "k \<in> set epoch_history_keys \<union> set batch_history_keys"
  shows "extends_at d d' k"
proof -
  note nk = history_key_cases [OF assms(2)]
  from assms(1) obtain d1 d2 d3 d4 d5 c d6 dr where
    s1: "idiv ''epoch-drmsd'' n d = Inr d1"
    and s2: "idiv ''epoch-ln-drmsd'' n d1 = Inr d2"
    and s3: "idiv ''epoch-mse'' n d2 = Inr d3"
    and s4: "idiv ''epoch-combined'' n d3 = Inr d4"
    and s5: "(if mode = ''train'' then Inr (d4(''epoch-rmsd'' \<mapsto> VNone))
         else idiv ''epoch-rmsd'' n d4) = Inr d5"
    and s6: "append_to ''epoch-history-combined'' c d5 = Inr d6"
    and s7: "append_to ''epoch-history-drmsd'' dr d6 = Inr d'"
    unfolding finalize_split_Inr by blast
  have "d5 k = d4 k"
    using s5 nk by (cases "mode = ''train''") (auto dest: idiv_other)
  then have "d5 k = d k"
    using idiv_other [OF s1, of k] idiv_other [OF s2, of k] idiv_other [OF s3, of k]
      idiv_other [OF s4, of k] nk by simp
  then have "extends_at d d5 k" by (rule extends_at_same)
  with append_to_extends [OF s6] append_to_extends [OF s7] show ?thesis
    by (blast intro: extends_at_trans)
qed

lemma reset_keeps_epoch_histories:
  assumes "reset_metrics_for_epoch m mode now = Inr m'"
    and "k \<in> set epoch_history_keys"
  shows "field m' s k = field m s k \<and> history_lr m' = history_lr m"
proof -
  from assms(1) obtain d where d: "splits m mode = Some d"
    and m': "m' = m\<lparr>splits := (splits m)(mode \<mapsto> reset_split mode now d)\<rparr>"
    unfolding reset_metrics_for_epoch_Inr by blast
  from assms(2) have "reset_split mode now d k = d k"
    by (auto simp: epoch_history_keys_def reset_split_epoch_histories)
  with d m' show ?thesis by (simp add: field_def)
qed

lemma field_extends:
  assumes "splits m mode = Some d" and "extends_at d d' k"
    and "field m s k = Some (VList xs)"
  shows "\<exists>ys. field (m\<lparr>splits := (splits m)(mode \<mapsto> d')\<rparr>) s k = Some (VList (xs @ ys))"
proof (cases "s = mode")
  case True
  with assms show ?thesis by (simp add: field_def extends_at_def)
next
  case False
  with assms(3) show ?thesis by (simp add: field_def)
qed

lemma reset_keeps_other_splits:
  assumes "reset_metrics_for_epoch m mode now = Inr m'" and "s \<noteq> mode"
  shows "field m' s k = field m s k"
proof -
  from assms(1) obtain d where
    "m' = m\<lparr>splits := (splits m)(mode \<mapsto> reset_split mode now d)\<rparr>"
    unfolding reset_metrics_for_epoch_Inr by blast
  with assms(2) show ?thesis by (simp add: field_def)
qed

lemma reset_clears_batch_lists:
  assumes "reset_metrics_for_epoch m mode now = Inr m'"
  shows "field m' mode ''batch-history'' = Some (VList []) \<and>
         field m' mode ''speed-history'' = Some (VList [])"
proof -
  from assms obtain d where
    "m' = m\<lparr>splits := (splits m)(mode \<mapsto> reset_split mode now d)\<rparr>"
    unfolding reset_metrics_for_epoch_Inr by blast
  then show ?thesis by (simp add: field_def reset_split_def)
qed

lemma apply_operation_histories:
  assumes "apply_operation op m = Inr m'"
    and "k \<in> set epoch_history_keys \<or> (k \<in> set batch_history_keys \<and> \<not> resets s op)"
    and "field m s k = Some (VList xs)"
  shows "(\<exists>ys. field m' s k = Some (VList (xs @ ys))) \<and> history_lr m' = history_lr m"
proof (cases op)
  case (OpReset mode now)
  with assms(1) have r: "reset_metrics_for_epoch m mode now = Inr m'" by simp
  then have l: "history_lr m' = history_lr m"
    unfolding reset_metrics_for_epoch_Inr by auto
  show ?thesis
  proof (cases "k \<in> set epoch_history_keys")
    case True
    with reset_keeps_epoch_histories [OF r, of k s] assms(3) show ?thesis by simp
  next
    case False
    with assms(2) OpReset have "s \<noteq> mode" by auto
    with reset_keeps_other_splits [OF r, of s k] assms(3) l show ?thesis by simp
  qed
next
  case (OpUpdate mode c)
  with assms(1) obtain d d' where d: "splits m mode = Some d"
    and u: "update_split (b_drmsd c) (b_ln_drmsd c) (b_mse c) (b_combined c) (b_src_seq c)
              (b_rmsd c) (b_tracking_loss c) (b_batch_level c) (b_t1 c) (b_t2 c) d = Inr d'"
    and m': "m' = m\<lparr>splits := (splits m)(mode \<mapsto> d')\<rparr>"
    by (auto simp: update_call_def update_metrics_Inr)
  from assms(2) have "k \<in> set epoch_history_keys \<union> set batch_history_keys" by blast
  from update_split_extends [OF u this] field_extends [OF d _ assms(3)] m'
  show ?thesis by simp
next
  case (OpFinalize mode n)
  with assms(1) obtain d d' where d: "splits m mode = Some d"
    and f: "finalize_split mode n d = Inr d'"
    and m': "m' = m\<lparr>splits := (splits m)(mode \<mapsto> d')\<rparr>"
    by (auto simp: update_metrics_end_of_epoch_Inr)
  from assms(2) have "k \<in> set epoch_history_keys \<union> set batch_history_keys" by blast
  from finalize_split_extends [OF f this] field_extends [OF d _ assms(3)] m'
  show ?thesis by simp
next
  case (OpEarlyStop a i)
  with assms(1) have "update_loss_trackers a i m = Inr m'" by simp
  from update_loss_trackers_Inr [OF this] have "splits m' = splits m \<and> history_lr m' = history_lr m"
    by auto
  with assms(3) show ?thesis by (simp add: field_def)
qed

lemma run_operations_histories:
  "run_operations ops m = Inr m' \<Longrightarrow>
   k \<in> set epoch_history_keys \<or> (k \<in> set batch_history_keys \<and> \<not> list_ex (resets s) ops) \<Longrightarrow>
   field m s k = Some (VList xs) \<Longrightarrow>
   (\<exists>ys. field m' s k = Some (VList (xs @ ys))) \<and> history_lr m' = history_lr m"
proof (induction ops arbitrary: m xs)
  case Nil
  then show ?case by simp
next
  case (Cons op ops)
  from Cons.prems(1) obtain m1 where a: "apply_operation op m = Inr m1"
    and r: "run_operations ops m1 = Inr m'"
    by (auto simp: bind_res_Inr)
  from Cons.prems(2) have k1: "k \<in> set epoch_history_keys \<or>
      (k \<in> set batch_history_keys \<and> \<not> resets s op)"
    and k2: "k \<in> set epoch_history_keys \<or>
      (k \<in> set batch_history_keys \<and> \<not> list_ex (resets s) ops)"
    by auto
  from apply_operation_histories [OF a k1 Cons.prems(3)] obtain ys where
    f1: "field m1 s k = Some (VList (xs @ ys))" and l1: "history_lr m1 = history_lr m"
    by blast
  from Cons.IH [OF r k2 f1] l1 show ?case by auto
qed

subsection \<open>Sums and means of floats\<close>





lemma fdiv_nonzero: "b \<noteq> 0 \<Longrightarrow> \<exists>q. fdiv a (Fin b) = Inr q"
  by simp

subsection \<open>The running sums\<close>
















subsection \<open>The end of an epoch after a run of updates\<close>







subsection \<open>Sanitised titles\<close>

lemma replace_str_single:
  "replace_str [rc] ''_'' s = map (\<lambda>c. if c = rc then CHR ''_'' else c) s"
  by (induction s) auto

lemma replace_all_chars:
  "foldl (\<lambda>t rc. replace_str [rc] ''_'' t) s replace_chars
     = map (\<lambda>c. if c \<in> set replace_chars then CHR ''_'' else c) s"
  by (induction s) (simp_all add: replace_chars_def replace_str_single)

lemma lower_underscore: "lower_char (CHR ''_'') = CHR ''_''"
  by (simp add: lower_char_def is_upper_def)

lemma title_to_fn_eq:
  "title_to_fn title =
     (let t1 = replace_str '', '' ''_''
                 (replace_str '', )'' ''_'' (replace_str '' = ['' ''_'' title))
      in map sanitise_char (drop (nat (find_char (CHR 0x0A) t1 + 1)) t1))"
  unfolding title_to_fn_def Let_def replace_all_chars
  by (simp add: sanitise_char_def lower_underscore)

lemma replace_chars_codes:
  "c \<in> set replace_chars \<Longrightarrow> (of_char c :: nat) \<in> {32, 44, 61, 91, 93, 40, 41, 46, 36}"
  by (auto simp: replace_chars_def)

lemma lower_char_code:
  "(of_char (lower_char c) :: nat) = (if is_upper c then of_char c + 32 else of_char c)"
  by (simp add: lower_char_def is_upper_def)

lemma lower_char_not_upper: "\<not> is_upper (lower_char c)"
  unfolding is_upper_def lower_char_code by (simp add: is_upper_def)

lemma lower_char_idem: "lower_char (lower_char c) = lower_char c"
  using lower_char_not_upper [of c] by (simp add: lower_char_def [of "lower_char c"])

lemma lower_char_keeps_out:
  assumes "c \<notin> set replace_chars"
  shows "lower_char c \<notin> set replace_chars"
proof (cases "is_upper c")
  case False
  with assms show ?thesis by (simp add: lower_char_def)
next
  case True
  then have "(of_char (lower_char c) :: nat) \<in> {97..122}"
    unfolding lower_char_code by (simp add: is_upper_def)
  with replace_chars_codes [of "lower_char c"] show ?thesis by auto
qed

lemma sanitise_char_out: "sanitise_char c \<notin> set replace_chars"
  by (simp add: sanitise_char_def lower_char_keeps_out) (simp add: replace_chars_def)

lemma sanitise_char_not_upper: "\<not> is_upper (sanitise_char c)"
  by (simp add: sanitise_char_def lower_char_not_upper) (simp add: is_upper_def)

lemma sanitise_char_lower: "lower_char (sanitise_char c) = sanitise_char c"
  by (simp add: sanitise_char_def lower_char_idem lower_underscore)

lemma sanitise_char_safe: "title_char c \<or> c = CHR ''_'' \<Longrightarrow> safe_char (sanitise_char c)"
  by (auto simp: sanitise_char_def title_char_def safe_char_def lower_char_def is_lower_def
      is_upper_def is_digit_def)

lemma set_replace_str: "set (replace_str old new s) \<subseteq> set s \<union> set new"
proof (induction old new s rule: replace_str.induct)
  case (1 old new)
  show ?case by auto
next
  case (2 old new c cs)
  show ?case
  proof (cases "old = []")
    case True
    with 2(1) show ?thesis by auto
  next
    case False
    show ?thesis
    proof (cases "prefix old (c # cs)")
      case True
      from 2(2) [OF False True] set_drop_subset [of "length old" "c # cs"]
      show ?thesis using False True by auto
    next
      case no: False
      from 2(3) [OF False no] show ?thesis using False no by auto
    qed
  qed
qed

lemma title_to_fn_chars:
  "set (title_to_fn title) \<subseteq> sanitise_char ` (set title \<union> {CHR ''_''})"
proof -
  let ?a = "replace_str '' = ['' ''_'' title"
  let ?b = "replace_str '', )'' ''_'' ?a"
  let ?t1 = "replace_str '', '' ''_'' ?b"
  have "set ?a \<subseteq> set title \<union> {CHR ''_''}"
    using set_replace_str [of "'' = [''" "''_''" title] by simp
  moreover have "set ?b \<subseteq> set ?a \<union> {CHR ''_''}"
    using set_replace_str [of "'', )''" "''_''" ?a] by simp
  moreover have "set ?t1 \<subseteq> set ?b \<union> {CHR ''_''}"
    using set_replace_str [of "'', ''" "''_''" ?b] by simp
  ultimately have "set ?t1 \<subseteq> set title \<union> {CHR ''_''}" by blast
  moreover have "set (drop (nat (find_char (CHR 0x0A) ?t1 + 1)) ?t1) \<subseteq> set ?t1"
    by (rule set_drop_subset)
  ultimately show ?thesis
    unfolding title_to_fn_eq Let_def by (simp only: set_map) blast
qed

lemma replace_str_skip_first:
  "a \<notin> set p \<Longrightarrow> replace_str (a # rest) new (p @ s) = p @ replace_str (a # rest) new s"
  by (induction p) auto

lemma replace_str_skip_second:
  "b \<notin> set p \<Longrightarrow> c \<noteq> b \<Longrightarrow>
   replace_str (a # b # rest) new (p @ c # s) = p @ replace_str (a # b # rest) new (c # s)"
proof (induction p)
  case Nil
  show ?case by simp
next
  case (Cons x p)
  then show ?case by (cases p) auto
qed

lemma find_char_append: "c \<notin> set p \<Longrightarrow> find_char c (p @ c # s) = int (length p)"
  by (induction p) (auto simp: Let_def)

lemma plain_char_facts:
  assumes "list_all plain_char p"
  shows "CHR '','' \<notin> set p" "CHR ''='' \<notin> set p" "CHR 0x0A \<notin> set p"
  using assms by (auto simp: list_all_iff plain_char_def)

lemma annotated_title:
  assumes name: "list_all plain_char name" and pre: "list_all plain_char pre"
    and n: "list_all plain_char n"
  shows "title_to_fn (name @ [CHR 0x0A] @ pre @ '', t = ['' @ n @ '', )'')
     = map sanitise_char pre @ ''_t_'' @ map sanitise_char n @ ''_''"
proof -
  note nm = plain_char_facts [OF name] and pr = plain_char_facts [OF pre]
    and nn = plain_char_facts [OF n]
  have a: "replace_str '' = ['' ''_'' (name @ [CHR 0x0A] @ pre @ '', t = ['' @ n @ '', )'')
      = name @ [CHR 0x0A] @ pre @ '', t_'' @ n @ '', )''"
    using nm(2) pr(2) nn(2) by (simp add: replace_str_skip_second)
  have b: "replace_str '', )'' ''_'' (name @ [CHR 0x0A] @ pre @ '', t_'' @ n @ '', )'')
      = name @ [CHR 0x0A] @ pre @ '', t_'' @ n @ ''_''"
    using nm(1) pr(1) nn(1) by (simp add: replace_str_skip_first)
  have c: "replace_str '', '' ''_'' (name @ [CHR 0x0A] @ pre @ '', t_'' @ n @ ''_'')
      = name @ [CHR 0x0A] @ pre @ ''_t_'' @ n @ ''_''"
    using nm(1) pr(1) nn(1) by (simp add: replace_str_skip_first)
  have f: "find_char (CHR 0x0A) (name @ [CHR 0x0A] @ pre @ ''_t_'' @ n @ ''_'')
      = int (length name)"
    using find_char_append [OF nm(3)] by simp
  have s: "map sanitise_char ''_t_'' = ''_t_''" "map sanitise_char ''_'' = ''_''"
    by (simp_all add: sanitise_char_def replace_chars_def lower_char_def is_upper_def)
  have d: "drop (nat (int (length name) + 1)) (name @ [CHR 0x0A] @ pre @ ''_t_'' @ n @ ''_'')
      = pre @ ''_t_'' @ n @ ''_''"
    by (simp add: nat_add_distrib)
  show ?thesis
    unfolding title_to_fn_eq Let_def a b c f d using s by simp
qed

subsection \<open>Where the process exits\<close>

lemma getitem_no_exit: "getitem d k \<noteq> Inl (SystemExit n)"
  by (simp add: getitem_def split: option.splits)

lemma num_of_no_exit: "num_of v \<noteq> Inl (SystemExit n)"
  by (cases v) simp_all

lemma iadd_no_exit: "iadd k x d \<noteq> Inl (SystemExit n)"
  by (simp add: iadd_def split: option.splits pyval.splits)

lemma append_to_no_exit: "append_to k v d \<noteq> Inl (SystemExit n)"
  by (simp add: append_to_def split: option.splits pyval.splits)

lemma fdiv_no_exit: "fdiv a b \<noteq> Inl (SystemExit n)"
  by (cases "(a, b)" rule: fdiv.cases) simp_all

lemma last_item_no_exit: "last_item xs \<noteq> Inl (SystemExit n)"
  by (simp add: last_item_def)

lemma np_sqrt_no_exit: "np_sqrt v \<noteq> Inl (SystemExit n)"
  by (simp add: np_sqrt_def split: pyval.splits)

lemma len_check_no_exit: "len_check v \<noteq> Inl (SystemExit n)"
  by (simp add: len_check_def split: pyval.splits)

lemmas no_exit = getitem_no_exit num_of_no_exit iadd_no_exit append_to_no_exit fdiv_no_exit
  last_item_no_exit np_sqrt_no_exit len_check_no_exit

lemma add_epoch_sums_no_exit: "add_epoch_sums drmsd lnd ms c rmsd d \<noteq> Inl (SystemExit n)"
  by (auto simp: add_epoch_sums_def bind_res_Inl no_exit split: option.splits)

lemma update_speed_no_exit: "update_speed src t1 t2 d \<noteq> Inl (SystemExit n)"
  by (auto simp: update_speed_def bind_res_Inl Let_def no_exit)

lemma update_split_no_exit:
  "update_split drmsd lnd ms c src rmsd trk bl t1 t2 d \<noteq> Inl (SystemExit n)"
  by (auto simp: update_split_def bind_res_Inl no_exit add_epoch_sums_no_exit
      update_speed_no_exit split: option.splits)

lemma update_metrics_no_exit:
  "update_metrics m mode drmsd lnd ms c src rmsd trk bl t1 t2 \<noteq> Inl (SystemExit n)"
  by (auto simp: update_metrics_def bind_res_Inl update_split_no_exit split: option.splits)

lemma log_batch_no_exit: "log_batch m start_time mode eoe t now \<noteq> Inl (SystemExit n)"
  by (auto simp: log_batch_def Let_def bind_res_Inl no_exit split: option.splits)

lemma print_status_train_epoch_no_exit:
  "print_status_train_epoch a m \<noteq> Inl (SystemExit n)"
  by (auto simp: print_status_train_epoch_def bind_res_Inl no_exit split: option.splits)

lemma train_batch_records_no_exit:
  "snd (train_batch_records m d_loss ln_d_loss m_loss c_loss src_seq loss cur_lr a start_time
          step t1 t2 t3) \<noteq> Inl (SystemExit n)"
  unfolding train_batch_records_def Let_def
  by (auto simp: update_metrics_no_exit log_batch_no_exit print_status_train_epoch_no_exit
      split: sum.splits)

subsection \<open>When the logging of a training batch returns\<close>

lemma has_num_iff: "has_num d k \<longleftrightarrow> (\<exists>x. d k = Some (VNum x))"
  by (auto simp: has_num_def split: option.splits pyval.splits)

lemma has_list_iff: "has_list d k \<longleftrightarrow> (\<exists>xs. d k = Some (VList xs))"
  by (auto simp: has_list_def split: option.splits pyval.splits)

lemma fdiv_clock: "b \<noteq> Fin t1 \<Longrightarrow> \<exists>q. fdiv x (fsub (Fin t1) b) = Inr q"
  by (cases b; cases x) (simp_all add: fsub_def)

lemma update_speed_returns:
  assumes "d ''batch-time'' = Some (VNum b)" and "b \<noteq> Fin t1"
    and "d ''speed-history'' = Some (VList sh)"
  shows "\<exists>d' s. update_speed src t1 t2 d = Inr d' \<and> d' ''speed'' = Some (VNum s) \<and>
           (\<forall>j. j \<noteq> ''speed'' \<longrightarrow> j \<noteq> ''batch-time'' \<longrightarrow> j \<noteq> ''speed-history'' \<longrightarrow>
              d' j = d j)"
proof -
  from fdiv_clock [OF assms(2)] obtain q where
    "fdiv (Fin (of_int (num_res src))) (fsub (Fin t1) b) = Inr q" by blast
  with assms(1,3) show ?thesis
    by (simp add: update_speed_def getitem_def bind_res_def append_to_def Let_def)
qed

lemma add_epoch_sums_returns:
  assumes "d ''epoch-drmsd'' = Some (VNum a1)" and "d ''epoch-ln-drmsd'' = Some (VNum a2)"
    and "d ''epoch-mse'' = Some (VNum a3)" and "d ''epoch-combined'' = Some (VNum a4)"
  shows "\<exists>d'. add_epoch_sums drmsd lnd ms c None d = Inr d' \<and>
           (\<forall>j. j \<noteq> ''epoch-drmsd'' \<longrightarrow> j \<noteq> ''epoch-ln-drmsd'' \<longrightarrow> j \<noteq> ''epoch-mse'' \<longrightarrow>
              j \<noteq> ''epoch-combined'' \<longrightarrow> d' j = d j)"
  using assms by (simp add: add_epoch_sums_def iadd_def bind_res_def)

lemma update_split_returns:
  assumes "has_num d ''epoch-drmsd''" and "has_num d ''epoch-ln-drmsd''"
    and "has_num d ''epoch-mse''" and "has_num d ''epoch-combined''"
    and "has_num d ''batch-time''" and "d ''batch-time'' \<noteq> Some (VNum (Fin t1))"
    and "has_list d ''speed-history''" and "has_list d ''batch-history''"
  shows "\<exists>d'. update_split drmsd lnd ms c src None trk True t1 t2 d = Inr d' \<and>
           d' ''batch-drmsd'' = Some (VNum drmsd) \<and> d' ''batch-ln-drmsd'' = Some (VNum lnd) \<and>
           d' ''batch-mse'' = Some (VNum ms) \<and> d' ''batch-combined'' = Some (VNum c) \<and>
           d' ''batch-rmsd'' = d ''batch-rmsd'' \<and> has_num d' ''speed'' \<and>
           has_list d' ''batch-history''"
proof -
  let ?d0 = "set_batch_fields drmsd lnd ms c None d"
  have d0: "?d0 = d(''batch-drmsd'' \<mapsto> VNum drmsd, ''batch-ln-drmsd'' \<mapsto> VNum lnd,
                 ''batch-mse'' \<mapsto> VNum ms, ''batch-combined'' \<mapsto> VNum c)"
    by (simp add: set_batch_fields_def)
  from assms(1-4) obtain a1 a2 a3 a4 where
    "?d0 ''epoch-drmsd'' = Some (VNum a1)" "?d0 ''epoch-ln-drmsd'' = Some (VNum a2)"
    "?d0 ''epoch-mse'' = Some (VNum a3)" "?d0 ''epoch-combined'' = Some (VNum a4)"
    unfolding has_num_iff d0 by auto
  from add_epoch_sums_returns [OF this] obtain d1 where
    a: "add_epoch_sums drmsd lnd ms c None ?d0 = Inr d1"
    and f1: "\<And>j. j \<noteq> ''epoch-drmsd'' \<Longrightarrow> j \<noteq> ''epoch-ln-drmsd'' \<Longrightarrow> j \<noteq> ''epoch-mse'' \<Longrightarrow>
              j \<noteq> ''epoch-combined'' \<Longrightarrow> d1 j = ?d0 j"
    by blast
  from assms(5,6) obtain b where "d ''batch-time'' = Some (VNum b)" "b \<noteq> Fin t1"
    unfolding has_num_iff by auto
  then have bt: "d1 ''batch-time'' = Some (VNum b)" "b \<noteq> Fin t1"
    by (simp_all add: f1 d0)
  from assms(7) obtain sh where "d1 ''speed-history'' = Some (VList sh)"
    unfolding has_list_iff by (auto simp: f1 d0)
  from update_speed_returns [OF bt this] obtain d2 s where
    u: "update_speed src t1 t2 d1 = Inr d2" and sp: "d2 ''speed'' = Some (VNum s)"
    and f2: "\<And>j. j \<noteq> ''speed'' \<Longrightarrow> j \<noteq> ''batch-time'' \<Longrightarrow> j \<noteq> ''speed-history'' \<Longrightarrow>
              d2 j = d1 j"
    by blast
  from assms(8) obtain bh where bh: "d2 ''batch-history'' = Some (VList bh)"
    unfolding has_list_iff by (auto simp: f1 f2 d0)
  let ?r = "case trk of None \<Rightarrow> Inr d2
     | Some l \<Rightarrow> if truthy l then append_to ''batch-history'' (VNum l) d2 else Inr d2"
  have "\<exists>d'. ?r = Inr d' \<and> (\<forall>j. j \<noteq> ''batch-history'' \<longrightarrow> d' j = d2 j) \<and>
          has_list d' ''batch-history''"
  proof (cases trk)
    case None
    then show ?thesis using bh by (simp add: has_list_def)
  next
    case (Some l)
    then show ?thesis using bh
      by (cases "truthy l") (simp_all add: append_to_def has_list_def)
  qed
  then obtain d' where t: "?r = Inr d'"
    and f3: "\<And>j. j \<noteq> ''batch-history'' \<Longrightarrow> d' j = d2 j"
    and hl: "has_list d' ''batch-history''"
    by blast
  have "update_split drmsd lnd ms c src None trk True t1 t2 d = Inr d'"
    unfolding update_split_Inr using a u t by auto
  moreover have "d' ''batch-drmsd'' = Some (VNum drmsd)" by (simp add: f3 f2 f1 d0)
  moreover have "d' ''batch-ln-drmsd'' = Some (VNum lnd)" by (simp add: f3 f2 f1 d0)
  moreover have "d' ''batch-mse'' = Some (VNum ms)" by (simp add: f3 f2 f1 d0)
  moreover have "d' ''batch-combined'' = Some (VNum c)" by (simp add: f3 f2 f1 d0)
  moreover have "d' ''batch-rmsd'' = d ''batch-rmsd''" by (simp add: f3 f2 f1 d0)
  moreover have "has_num d' ''speed''" by (simp add: f3 sp has_num_def)
  ultimately show ?thesis using hl by blast
qed

lemma log_batch_returns:
  assumes "splits m mode = Some d"
    and "d ''batch-drmsd'' = Some c0" and "d ''batch-ln-drmsd'' = Some c1"
    and "d ''batch-mse'' = Some (VNum ms)" and "d ''batch-rmsd'' \<noteq> None"
    and "d ''batch-combined'' = Some c4" and "history_lr m \<noteq> []"
    and "has_num d ''speed''"
  shows "\<exists>row. log_batch m start_time mode False t now = Inr row"
  using assms
  by (auto simp: log_batch_def getitem_def np_sqrt_def last_item_def bind_res_def Let_def
      has_num_iff)

lemma print_status_train_epoch_returns:
  assumes "splits m ''train'' = Some d" and "history_lr m \<noteq> []"
    and "has_list d ''batch-history''"
    and "d ''batch-drmsd'' = Some (VNum x0)" and "d ''batch-ln-drmsd'' = Some (VNum x3)"
    and "d ''batch-mse'' = Some (VNum x1)" and "d ''batch-combined'' = Some (VNum x2)"
    and "has_num d ''batch-time''" and "has_num d ''speed''"
  shows "\<exists>st. print_status_train_epoch a m = Inr st"
  using assms
  by (auto simp: print_status_train_epoch_def getitem_def last_item_def bind_res_def
      len_check_def has_num_iff has_list_iff)

lemma train_batch_records_returns:
  assumes "train_ready a m t1"
  shows "\<exists>evs m2. train_batch_records m d_loss ln_d_loss m_loss c_loss src_seq loss cur_lr a
           start_time step t1 t2 t3 = (evs, Inr m2)"
proof -
  from assms obtain d where d: "splits m ''train'' = Some d"
    and r: "has_num d ''epoch-drmsd''" "has_num d ''epoch-ln-drmsd''"
      "has_num d ''epoch-mse''" "has_num d ''epoch-combined''"
      "has_num d ''batch-time''" "d ''batch-time'' \<noteq> Some (VNum (Fin t1))"
      "has_list d ''speed-history''" "has_list d ''batch-history''"
    and rm: "d ''batch-rmsd'' \<noteq> None"
    and lr: "lr_scheduling a \<or> history_lr m \<noteq> []"
    by (cases "splits m ''train''") (simp_all add: train_ready_def)
  from update_split_returns [OF r, of d_loss ln_d_loss m_loss c_loss src_seq "Some loss" t2]
  obtain d' where
    u: "update_split d_loss ln_d_loss m_loss c_loss src_seq None (Some loss) True t1 t2 d
          = Inr d'"
    and b: "d' ''batch-drmsd'' = Some (VNum d_loss)"
      "d' ''batch-ln-drmsd'' = Some (VNum ln_d_loss)"
      "d' ''batch-mse'' = Some (VNum m_loss)" "d' ''batch-combined'' = Some (VNum c_loss)"
    and br: "d' ''batch-rmsd'' = d ''batch-rmsd''"
    and sp: "has_num d' ''speed''" and bh: "has_list d' ''batch-history''"
    by blast
  let ?m1 = "m\<lparr>splits := (splits m)(''train'' \<mapsto> d')\<rparr>"
  have um: "update_metrics m ''train'' d_loss ln_d_loss m_loss c_loss src_seq None
      (Some loss) True t1 t2 = Inr ?m1"
    unfolding update_metrics_Inr using d u by blast
  let ?m2 = "if lr_scheduling a then ?m1\<lparr>history_lr := history_lr ?m1 @ [cur_lr]\<rparr> else ?m1"
  have s2: "splits ?m2 ''train'' = Some d'" by simp
  have h2: "history_lr ?m2 \<noteq> []" using lr by auto
  have bt: "has_num d' ''batch-time''"
  proof -
    from u obtain d1 d2 where
      "update_speed src_seq t1 t2 d1 = Inr d2"
      and t: "(case Some loss of None \<Rightarrow> Inr d2
         | Some l \<Rightarrow> if truthy l then append_to ''batch-history'' (VNum l) d2 else Inr d2)
        = Inr d'"
      unfolding update_split_Inr by blast
    then have "d2 ''batch-time'' = Some (VNum (Fin t2))"
      by (auto simp: update_speed_def bind_res_Inr append_to_Inr Let_def)
    moreover from t have "d' ''batch-time'' = d2 ''batch-time''"
      by (cases "truthy loss") (auto simp: append_to_Inr)
    ultimately show ?thesis by (simp add: has_num_def)
  qed
  from rm br have rm': "d' ''batch-rmsd'' \<noteq> None" by simp
  from log_batch_returns [OF s2 b(1,2,3) rm' b(4) h2 sp]
  obtain row where lb: "log_batch ?m2 start_time ''train'' False None t3 = Inr row"
    by blast
  from print_status_train_epoch_returns [OF s2 h2 bh b(1,2,3,4) bt sp]
  obtain st where ps: "print_status_train_epoch a ?m2 = Inr st" by blast
  show ?thesis
    unfolding train_batch_records_def um Let_def using lb ps by simp
qed

section \<open>Claims about the tabular log\<close>

lemma demo_row:
  "log_batch demo_state 0 ''train'' False None 2 =
     Inr [CVal (VNum (Fin 3)), CVal (VNum (Fin 1)), CVal (VNum (Fin 2)), CVal VNone,
          CVal (VNum (Fin 7)), CVal (VNum (Fin 0)), CStr ''train'', CStr ''epoch'',
          CVal (VNum (Fin 2)), CVal (VNum (Fin 1))]"
  by (simp add: demo_state_def log_batch_def np_sqrt_def last_item_def eval_defs)

subsection \<open>The granularity column\<close>

text \<open>
  Claim C10.  Every row that \<^verbatim>\<open>log_batch\<close> hands to the CSV writer has ten cells and the
  cell in the granularity column (the eighth) is the constant string \<^verbatim>\<open>"epoch"\<close>, whatever
  the value of \<^verbatim>\<open>end_of_epoch\<close>: batch-level rows carry it as well.
\<close>

theorem log_batch_granularity_epoch:
  assumes "log_batch m start_time mode end_of_epoch t now = Inr row"
  shows "length row = 10 \<and> row ! 7 = CStr ''epoch''"
  using assms by (auto simp: log_batch_def Let_def bind_res_Inr split: option.splits)

theorem log_batch_granularity_epoch_witness:
  "log_batch demo_state 0 ''train'' False None 2 =
     Inr [CVal (VNum (Fin 3)), CVal (VNum (Fin 1)), CVal (VNum (Fin 2)), CVal VNone,
          CVal (VNum (Fin 7)), CVal (VNum (Fin 0)), CStr ''train'', CStr ''epoch'',
          CVal (VNum (Fin 2)), CVal (VNum (Fin 1))]
   \<and> [CVal (VNum (Fin 3)), CVal (VNum (Fin 1)), CVal (VNum (Fin 2)), CVal VNone,
        CVal (VNum (Fin 7)), CVal (VNum (Fin 0)), CStr ''train'', CStr ''epoch'',
        CVal (VNum (Fin 2)), CVal (VNum (Fin 1))] ! 7 = CStr ''epoch''"
  using log_batch_granularity_epoch [OF demo_row] demo_row by simp

subsection \<open>The combined column\<close>

text \<open>
  Claim C4.  The claim asks that a row carries the \<^verbatim>\<open>combined\<close> column exactly when the
  header does, that is when combined-loss mode is on.  \<^verbatim>\<open>log_batch\<close> does not look at the
  mode: with combined-loss mode off, the header names nine columns and the row written
  under it has ten cells, the fifth being the combined loss (here 7) under the header's
  \<^verbatim>\<open>lr\<close>.
\<close>

theorem log_row_keeps_combined_without_header_column:
  "header_columns (prepare_log_header demo_args) =
     [''drmsd'', ''ln_drmsd'', ''rmse'', ''rmsd'', ''lr'', ''mode'', ''granularity'', ''time'',
      ''speed'']
   \<and> log_batch demo_state 0 ''train'' False None 2 =
     Inr [CVal (VNum (Fin 3)), CVal (VNum (Fin 1)), CVal (VNum (Fin 2)), CVal VNone,
          CVal (VNum (Fin 7)), CVal (VNum (Fin 0)), CStr ''train'', CStr ''epoch'',
          CVal (VNum (Fin 2)), CVal (VNum (Fin 1))]"
  by (simp add: demo_row) (simp add: header_columns_def prepare_log_header_def demo_args_def)

section \<open>Claims about the accumulator\<close>

subsection \<open>Optional metrics that are zero\<close>

text \<open>
  Claim C9.  \<^verbatim>\<open>update_metrics\<close> tests the optional arguments with \<^verbatim>\<open>if rmsd:\<close> and
  \<^verbatim>\<open>if tracking_loss:\<close>, so a supplied value of zero is treated as an absent one: the call
  is the same call as with \<^verbatim>\<open>None\<close>.  With \<^verbatim>\<open>rmsd\<close> zero, the batch-level rmsd field and
  the epoch-level rmsd sum keep the values they had (on every split, the non-training ones
  in particular); with \<^verbatim>\<open>tracking_loss\<close> zero, the batch loss history is left as it was.
\<close>

theorem zero_optional_metrics_absent:
  "update_metrics m mode drmsd lnd ms c src (Some (Fin 0)) trk bl t1 t2 =
     update_metrics m mode drmsd lnd ms c src None trk bl t1 t2
   \<and> update_metrics m mode drmsd lnd ms c src rmsd (Some (Fin 0)) bl t1 t2 =
     update_metrics m mode drmsd lnd ms c src rmsd None bl t1 t2
   \<and> (update_metrics m mode drmsd lnd ms c src (Some (Fin 0)) trk bl t1 t2 = Inr m' \<longrightarrow>
        field m' mode ''batch-rmsd'' = field m mode ''batch-rmsd'' \<and>
        field m' mode ''epoch-rmsd'' = field m mode ''epoch-rmsd'')
   \<and> (update_metrics m mode drmsd lnd ms c src rmsd (Some (Fin 0)) bl t1 t2 = Inr m'' \<longrightarrow>
        field m'' mode ''batch-history'' = field m mode ''batch-history'')"
proof (intro conjI impI)
  show "update_metrics m mode drmsd lnd ms c src (Some (Fin 0)) trk bl t1 t2 =
     update_metrics m mode drmsd lnd ms c src None trk bl t1 t2"
    by (simp only: update_metrics_def update_split_zero_rmsd)
  show "update_metrics m mode drmsd lnd ms c src rmsd (Some (Fin 0)) bl t1 t2 =
     update_metrics m mode drmsd lnd ms c src rmsd None bl t1 t2"
    by (simp only: update_metrics_def update_split_zero_tracking)
next
  assume "update_metrics m mode drmsd lnd ms c src (Some (Fin 0)) trk bl t1 t2 = Inr m'"
  then obtain d d' where d: "splits m mode = Some d"
    and u: "update_split drmsd lnd ms c src (Some (Fin 0)) trk bl t1 t2 d = Inr d'"
    and m': "m' = m\<lparr>splits := (splits m)(mode \<mapsto> d')\<rparr>"
    unfolding update_metrics_Inr by blast
  from update_split_zero_rmsd_fields [OF u]
  show "field m' mode ''batch-rmsd'' = field m mode ''batch-rmsd''"
    and "field m' mode ''epoch-rmsd'' = field m mode ''epoch-rmsd''"
    by (simp_all add: field_def d m')
next
  assume "update_metrics m mode drmsd lnd ms c src rmsd (Some (Fin 0)) bl t1 t2 = Inr m''"
  then obtain d d' where d: "splits m mode = Some d"
    and u: "update_split drmsd lnd ms c src rmsd (Some (Fin 0)) bl t1 t2 d = Inr d'"
    and m': "m'' = m\<lparr>splits := (splits m)(mode \<mapsto> d')\<rparr>"
    unfolding update_metrics_Inr by blast
  from update_split_zero_tracking_fields [OF u]
  show "field m'' mode ''batch-history'' = field m mode ''batch-history''"
    by (simp add: field_def d m')
qed

lemma demo_valid_fields:
  "field demo_valid_state ''valid'' ''batch-rmsd'' = Some (VNum (Fin 2))"
  "field demo_valid_state ''valid'' ''epoch-rmsd'' = Some (VNum (Fin 2))"
  "field demo_valid_state ''valid'' ''batch-history'' = Some (VList [])"
  by (code_simp)+

lemma demo_valid_zero_update:
  "is_ok (update_metrics demo_valid_state ''valid'' (Fin 5) (Fin 1) (Fin 4) (Fin 7) [[1]]
            (Some (Fin 0)) (Some (Fin 0)) True 2 2)"
  by code_simp

theorem zero_optional_metrics_absent_witness:
  "\<exists>m'. update_metrics demo_valid_state ''valid'' (Fin 5) (Fin 1) (Fin 4) (Fin 7) [[1]]
            (Some (Fin 0)) (Some (Fin 0)) True 2 2 = Inr m'
     \<and> field m' ''valid'' ''batch-rmsd'' = Some (VNum (Fin 2))
     \<and> field m' ''valid'' ''epoch-rmsd'' = Some (VNum (Fin 2))
     \<and> field m' ''valid'' ''batch-history'' = Some (VList [])"
proof -
  from demo_valid_zero_update obtain m' where
    h: "update_metrics demo_valid_state ''valid'' (Fin 5) (Fin 1) (Fin 4) (Fin 7) [[1]]
            (Some (Fin 0)) (Some (Fin 0)) True 2 2 = Inr m'"
    unfolding is_ok_iff by blast
  from zero_optional_metrics_absent [where m = demo_valid_state and mode = "''valid''"
      and drmsd = "Fin 5" and lnd = "Fin 1" and ms = "Fin 4" and c = "Fin 7" and src = "[[1]]"
      and trk = "Some (Fin 0)" and rmsd = "Some (Fin 0)" and bl = True and ?t1.0 = 2
      and ?t2.0 = 2 and m' = m' and m'' = m'] h
  have "field m' ''valid'' ''batch-rmsd'' = field demo_valid_state ''valid'' ''batch-rmsd''"
    and "field m' ''valid'' ''epoch-rmsd'' = field demo_valid_state ''valid'' ''epoch-rmsd''"
    and "field m' ''valid'' ''batch-history'' = field demo_valid_state ''valid'' ''batch-history''"
    by simp_all
  with h demo_valid_fields show ?thesis by simp
qed

subsection \<open>The rmsd field at the end of an epoch\<close>

text \<open>
  Claim C7.  After \<^verbatim>\<open>update_metrics_end_of_epoch(metrics, mode, n_batches)\<close> has returned,
  the epoch-level rmsd field is \<^verbatim>\<open>None\<close> when \<open>mode\<close> is the training split; for every
  other split it is the rmsd running sum divided by \<open>n_batches\<close> (for a finite sum \<open>x\<close>,
  the number \<open>x / n_batches\<close>).
\<close>

theorem finalize_epoch_rmsd:
  assumes "update_metrics_end_of_epoch m mode n_batches = Inr m'"
  shows "(mode = ''train'' \<longrightarrow> field m' mode ''epoch-rmsd'' = Some VNone) \<and>
         (mode \<noteq> ''train'' \<longrightarrow>
            (\<exists>s q. field m mode ''epoch-rmsd'' = Some (VNum s) \<and>
               fdiv s (Fin (of_int n_batches)) = Inr q \<and>
               field m' mode ''epoch-rmsd'' = Some (VNum q) \<and>
               (\<forall>x. s = Fin x \<longrightarrow> q = Fin (x / of_int n_batches))))"
proof -
  from assms obtain d d' where d: "splits m mode = Some d"
    and f: "finalize_split mode n_batches d = Inr d'"
    and m': "m' = m\<lparr>splits := (splits m)(mode \<mapsto> d')\<rparr>"
    unfolding update_metrics_end_of_epoch_Inr by blast
  from finalize_split_rmsd [OF f] show ?thesis
    by (auto simp: field_def d m' simp del: fdiv.simps dest: fdiv_Fin_Inr)
qed

lemma demo_finalize_ok:
  "is_ok (update_metrics_end_of_epoch demo_valid_state ''valid'' 4)"
  "is_ok (update_metrics_end_of_epoch demo_state ''train'' 4)"
  by code_simp+

lemma demo_rmsd_sum: "field demo_valid_state ''valid'' ''epoch-rmsd'' = Some (VNum (Fin 2))"
  by code_simp

theorem finalize_epoch_rmsd_witness:
  "(\<exists>m'. update_metrics_end_of_epoch demo_state ''train'' 4 = Inr m' \<and>
          field m' ''train'' ''epoch-rmsd'' = Some VNone) \<and>
   (\<exists>m'. update_metrics_end_of_epoch demo_valid_state ''valid'' 4 = Inr m' \<and>
          field m' ''valid'' ''epoch-rmsd'' = Some (VNum (Fin (1 / 2))))"
proof -
  from demo_finalize_ok obtain m1 m2 where
    h1: "update_metrics_end_of_epoch demo_state ''train'' 4 = Inr m1"
    and h2: "update_metrics_end_of_epoch demo_valid_state ''valid'' 4 = Inr m2"
    unfolding is_ok_iff by blast
  from finalize_epoch_rmsd [OF h1] have "field m1 ''train'' ''epoch-rmsd'' = Some VNone"
    by simp
  moreover from finalize_epoch_rmsd [OF h2] demo_rmsd_sum
  have "field m2 ''valid'' ''epoch-rmsd'' = Some (VNum (Fin (1 / 2)))"
    by (auto simp del: fdiv.simps)
  ultimately show ?thesis using h1 h2 by blast
qed

section \<open>Claims about early stopping\<close>

lemma scenario_state_facts:
  "epoch_last_improved scenario_state = 2"
  "best_valid_loss_so_far scenario_state = Fin 4"
  "field scenario_state (compare_mode scenario_args) (history_key scenario_args) = Some (VList [])"
  "early_stopping scenario_args = Some 2"
  by code_simp+

lemma scenario_eval_facts:
  "is_ok (update_loss_trackers scenario_args 1
            (store_epoch_mean scenario_args (Fin 5) (init_metrics scenario_args)))"
  "epoch_last_improved (store_epoch_mean scenario_args (Fin 5) (init_metrics scenario_args)) = - 1"
  "is_ok (update_loss_trackers scenario_args 3
            (store_epoch_mean scenario_args (Fin 4) scenario_state))"
  "chosen_loss scenario_args (store_epoch_mean scenario_args (Fin 4) scenario_state) = Some (Fin 4)"
  "best_valid_loss_so_far (store_epoch_mean scenario_args (Fin 4) scenario_state) = Fin 4"
  "epoch_last_improved (store_epoch_mean scenario_args (Fin 4) scenario_state) = 2"
  by code_simp+

subsection \<open>Stopping after the patience has run out\<close>

text \<open>
  Claim C1.  Let the patience \<open>P\<close> be set (a positive integer) and let \<open>m\<close> be the state
  after the last improvement, at epoch \<open>epoch_last_improved m\<close>.  If the chosen epoch-mean
  loss of each of the following epochs is not strictly below the best loss so far, the
  evaluator returns normally at each of the first \<open>P\<close> of them, leaving the best loss and the
  epoch of the last improvement untouched, and raises \<open>EarlyStoppingCondition\<close> at the
  \<open>(P+1)\<close>-th, which ends the run: it is raised once and at no earlier epoch.  In the
  scenario (combined losses 5, 4, 4, 4, 4, patience 2, combined-loss mode, epochs counted
  from 1) the run ends with the exception at epoch 5; after four epochs it has returned
  normally with best loss 4 and last improvement at epoch 2.
\<close>

theorem early_stopping_after_patience:
  assumes "early_stopping a = Some P" and "0 < P"
    and "splits m (compare_mode a) = Some d" and "d (history_key a) = Some h"
    and "\<forall>l\<in>set ls. \<not> flt l (best_valid_loss_so_far m)"
    and "nat P + 1 \<le> length ls"
  shows "early_stopping_run a (epoch_last_improved m + 1) ls m =
           Inl (EarlyStoppingCondition, epoch_last_improved m + P + 1)
     \<and> (\<forall>k\<le>nat P. \<exists>m'.
           early_stopping_run a (epoch_last_improved m + 1) (take k ls) m = Inr m' \<and>
           best_valid_loss_so_far m' = best_valid_loss_so_far m \<and>
           epoch_last_improved m' = epoch_last_improved m)
     \<and> early_stopping_run scenario_args 1 [Fin 5, Fin 4, Fin 4, Fin 4, Fin 4]
           (init_metrics scenario_args) = Inl (EarlyStoppingCondition, 5)
     \<and> best_valid_loss_so_far
           (case early_stopping_run scenario_args 1 [Fin 5, Fin 4, Fin 4, Fin 4]
                   (init_metrics scenario_args) of Inr m' \<Rightarrow> m' | Inl e \<Rightarrow> init_metrics scenario_args) = Fin 4
     \<and> epoch_last_improved
           (case early_stopping_run scenario_args 1 [Fin 5, Fin 4, Fin 4, Fin 4]
                   (init_metrics scenario_args) of Inr m' \<Rightarrow> m' | Inl e \<Rightarrow> init_metrics scenario_args) = 2"
proof (intro conjI allI impI)
  show "early_stopping_run a (epoch_last_improved m + 1) ls m =
           Inl (EarlyStoppingCondition, epoch_last_improved m + P + 1)"
    using run_stagnant_raises [OF assms(1-5), of "epoch_last_improved m + 1"] assms(2,6)
    by simp
next
  fix k assume k: "k \<le> nat P"
  have "\<forall>l\<in>set (take k ls). \<not> flt l (best_valid_loss_so_far m)"
    using assms(5) by (meson in_set_takeD)
  moreover have "epoch_last_improved m + 1 + int (length (take k ls))
      \<le> epoch_last_improved m + P + 1"
    using k assms(2) by simp
  ultimately show "\<exists>m'.
           early_stopping_run a (epoch_last_improved m + 1) (take k ls) m = Inr m' \<and>
           best_valid_loss_so_far m' = best_valid_loss_so_far m \<and>
           epoch_last_improved m' = epoch_last_improved m"
    using run_stagnant_returns [OF assms(1-4)] by blast
next
  show "early_stopping_run scenario_args 1 [Fin 5, Fin 4, Fin 4, Fin 4, Fin 4]
           (init_metrics scenario_args) = Inl (EarlyStoppingCondition, 5)"
    by (simp add: scenario_defs)
  show "best_valid_loss_so_far
           (case early_stopping_run scenario_args 1 [Fin 5, Fin 4, Fin 4, Fin 4]
                   (init_metrics scenario_args) of Inr m' \<Rightarrow> m' | Inl e \<Rightarrow> init_metrics scenario_args) = Fin 4"
    by code_simp
  show "epoch_last_improved
           (case early_stopping_run scenario_args 1 [Fin 5, Fin 4, Fin 4, Fin 4]
                   (init_metrics scenario_args) of Inr m' \<Rightarrow> m' | Inl e \<Rightarrow> init_metrics scenario_args) = 2"
    by code_simp
qed

theorem early_stopping_after_patience_witness:
  "early_stopping scenario_args = Some 2
   \<and> epoch_last_improved scenario_state = 2
   \<and> best_valid_loss_so_far scenario_state = Fin 4
   \<and> early_stopping_run scenario_args 3 [Fin 4, Fin 4, Fin 4] scenario_state =
       Inl (EarlyStoppingCondition, 5)
   \<and> (\<exists>m'. early_stopping_run scenario_args 3 [Fin 4, Fin 4] scenario_state = Inr m' \<and>
          best_valid_loss_so_far m' = Fin 4 \<and> epoch_last_improved m' = 2)"
proof -
  from scenario_state_facts(3) obtain d where
    d: "splits scenario_state (compare_mode scenario_args) = Some d"
    and h: "d (history_key scenario_args) = Some (VList [])"
    by (auto simp: field_def split: option.splits)
  have n: "\<forall>l\<in>set [Fin 4, Fin 4, Fin 4]. \<not> flt l (best_valid_loss_so_far scenario_state)"
    by (simp add: scenario_state_facts)
  have p: "0 < (2::int)" and len: "nat 2 + 1 \<le> length [Fin 4, Fin 4, Fin 4 :: pyfloat]"
    by simp_all
  note t = early_stopping_after_patience [OF scenario_state_facts(4) p d h n len]
  from t have "early_stopping_run scenario_args 3 [Fin 4, Fin 4, Fin 4] scenario_state =
       Inl (EarlyStoppingCondition, 5)"
    by (simp add: scenario_state_facts)
  moreover from t have "\<forall>k\<le>nat 2. \<exists>m'.
      early_stopping_run scenario_args (epoch_last_improved scenario_state + 1)
        (take k [Fin 4, Fin 4, Fin 4]) scenario_state = Inr m' \<and>
      best_valid_loss_so_far m' = best_valid_loss_so_far scenario_state \<and>
      epoch_last_improved m' = epoch_last_improved scenario_state"
    by blast
  then have "\<exists>m'.
      early_stopping_run scenario_args (epoch_last_improved scenario_state + 1)
        (take 2 [Fin 4, Fin 4, Fin 4]) scenario_state = Inr m' \<and>
      best_valid_loss_so_far m' = best_valid_loss_so_far scenario_state \<and>
      epoch_last_improved m' = epoch_last_improved scenario_state"
    by (simp del: take_Cons_numeral early_stopping_run.simps)
  then have "\<exists>m'. early_stopping_run scenario_args 3 [Fin 4, Fin 4] scenario_state = Inr m' \<and>
          best_valid_loss_so_far m' = Fin 4 \<and> epoch_last_improved m' = 2"
    by (simp add: scenario_state_facts del: early_stopping_run.simps)
  ultimately show ?thesis by (simp add: scenario_state_facts del: early_stopping_run.simps)
qed

subsection \<open>The best loss never rises\<close>

text \<open>
  Claim C3.  Across every run of operations on the metrics state (early-stopping
  evaluations with any resets, updates and end-of-epoch averaging between them) the best
  loss so far ends at or below where it started.  An operation changes the epoch of the
  last improvement, or the best loss, only if it is an early-stopping evaluation whose
  current epoch-mean loss is strictly below the best loss so far.  When the current loss
  equals the best loss so far, neither field is updated.
\<close>

theorem best_loss_non_increasing:
  "(run_operations ops m = Inr m' \<longrightarrow>
      fle (best_valid_loss_so_far m') (best_valid_loss_so_far m))
   \<and> (apply_operation op m = Inr m1 \<and>
       (epoch_last_improved m1 \<noteq> epoch_last_improved m \<or>
        best_valid_loss_so_far m1 \<noteq> best_valid_loss_so_far m) \<longrightarrow>
       (\<exists>a i l. op = OpEarlyStop a i \<and> chosen_loss a m = Some l \<and>
          flt l (best_valid_loss_so_far m) \<and>
          best_valid_loss_so_far m1 = l \<and> epoch_last_improved m1 = i))
   \<and> (update_loss_trackers a epoch_i m = Inr m2 \<and>
       chosen_loss a m = Some (best_valid_loss_so_far m) \<longrightarrow>
       best_valid_loss_so_far m2 = best_valid_loss_so_far m \<and>
       epoch_last_improved m2 = epoch_last_improved m)"
proof (intro conjI impI)
  assume "run_operations ops m = Inr m'"
  then show "fle (best_valid_loss_so_far m') (best_valid_loss_so_far m)"
    by (rule run_operations_best)
next
  assume h: "apply_operation op m = Inr m1 \<and>
       (epoch_last_improved m1 \<noteq> epoch_last_improved m \<or>
        best_valid_loss_so_far m1 \<noteq> best_valid_loss_so_far m)"
  then have "\<exists>a i. op = OpEarlyStop a i"
    using operations_keep_trackers [of op m m1] by blast
  then obtain a i where op: "op = OpEarlyStop a i" by blast
  with h have "update_loss_trackers a i m = Inr m1" by simp
  from update_loss_trackers_Inr [OF this] h op
  show "\<exists>a i l. op = OpEarlyStop a i \<and> chosen_loss a m = Some l \<and>
          flt l (best_valid_loss_so_far m) \<and>
          best_valid_loss_so_far m1 = l \<and> epoch_last_improved m1 = i"
    by auto
next
  assume h: "update_loss_trackers a epoch_i m = Inr m2 \<and>
       chosen_loss a m = Some (best_valid_loss_so_far m)"
  then have u: "update_loss_trackers a epoch_i m = Inr m2" by simp
  from update_loss_trackers_Inr [OF u] h
  show "best_valid_loss_so_far m2 = best_valid_loss_so_far m"
    and "epoch_last_improved m2 = epoch_last_improved m"
    by (auto simp: flt_irrefl)
qed

lemma run_operations_single: "run_operations [op] m = apply_operation op m"
  by (cases "apply_operation op m") (simp_all add: bind_res_def)

lemma scenario_first_evaluation:
  "is_ok (run_operations [OpEarlyStop scenario_args 1]
            (store_epoch_mean scenario_args (Fin 5) (init_metrics scenario_args)))"
  "epoch_last_improved (state_after [OpEarlyStop scenario_args 1]
     (store_epoch_mean scenario_args (Fin 5) (init_metrics scenario_args))) = 1"
  "best_valid_loss_so_far (state_after [OpEarlyStop scenario_args 1]
     (store_epoch_mean scenario_args (Fin 5) (init_metrics scenario_args))) = Fin 5"
  "best_valid_loss_so_far
     (store_epoch_mean scenario_args (Fin 5) (init_metrics scenario_args)) = PInf"
  by code_simp+

lemma scenario_tie_evaluation:
  "is_ok (run_operations [OpEarlyStop scenario_args 3]
            (store_epoch_mean scenario_args (Fin 4) scenario_state))"
  by code_simp

theorem best_loss_non_increasing_witness:
  "apply_operation (OpEarlyStop scenario_args 1)
       (store_epoch_mean scenario_args (Fin 5) (init_metrics scenario_args)) =
     Inr (state_after [OpEarlyStop scenario_args 1]
       (store_epoch_mean scenario_args (Fin 5) (init_metrics scenario_args)))
   \<and> fle (best_valid_loss_so_far (state_after [OpEarlyStop scenario_args 1]
       (store_epoch_mean scenario_args (Fin 5) (init_metrics scenario_args)))) PInf
   \<and> chosen_loss scenario_args
       (store_epoch_mean scenario_args (Fin 5) (init_metrics scenario_args)) = Some (Fin 5)
   \<and> flt (Fin 5) PInf
   \<and> update_loss_trackers scenario_args 3
       (store_epoch_mean scenario_args (Fin 4) scenario_state) =
     Inr (state_after [OpEarlyStop scenario_args 3]
       (store_epoch_mean scenario_args (Fin 4) scenario_state))
   \<and> chosen_loss scenario_args (store_epoch_mean scenario_args (Fin 4) scenario_state) =
       Some (Fin 4)
   \<and> best_valid_loss_so_far (state_after [OpEarlyStop scenario_args 3]
       (store_epoch_mean scenario_args (Fin 4) scenario_state)) = Fin 4
   \<and> epoch_last_improved (state_after [OpEarlyStop scenario_args 3]
       (store_epoch_mean scenario_args (Fin 4) scenario_state)) = 2"
proof -
  let ?E1 = "store_epoch_mean scenario_args (Fin 5) (init_metrics scenario_args)"
  let ?E3 = "store_epoch_mean scenario_args (Fin 4) scenario_state"
  let ?m1 = "state_after [OpEarlyStop scenario_args 1] ?E1"
  let ?m2 = "state_after [OpEarlyStop scenario_args 3] ?E3"
  have r1: "run_operations [OpEarlyStop scenario_args 1] ?E1 = Inr ?m1"
    using scenario_first_evaluation(1) by (rule state_after_eq)
  then have a1: "apply_operation (OpEarlyStop scenario_args 1) ?E1 = Inr ?m1"
    by (simp only: run_operations_single)
  have "run_operations [OpEarlyStop scenario_args 3] ?E3 = Inr ?m2"
    using scenario_tie_evaluation by (rule state_after_eq)
  then have h2: "update_loss_trackers scenario_args 3 ?E3 = Inr ?m2"
    by (simp only: run_operations_single apply_operation.simps)
  have ch: "epoch_last_improved ?m1 \<noteq> epoch_last_improved ?E1"
    by (simp add: scenario_first_evaluation scenario_eval_facts)
  note t = best_loss_non_increasing [where ops = "[OpEarlyStop scenario_args 1]"
      and m = ?E1 and m' = ?m1 and op = "OpEarlyStop scenario_args 1" and ?m1.0 = ?m1]
  from t r1 have f: "fle (best_valid_loss_so_far ?m1) PInf"
    by (simp add: scenario_first_evaluation)
  from t a1 ch have "\<exists>a i l. OpEarlyStop scenario_args 1 = OpEarlyStop a i \<and>
      chosen_loss a ?E1 = Some l \<and> flt l (best_valid_loss_so_far ?E1) \<and>
      best_valid_loss_so_far ?m1 = l \<and> epoch_last_improved ?m1 = i"
    by blast
  then have c1: "chosen_loss scenario_args ?E1 = Some (Fin 5) \<and> flt (Fin 5) PInf"
    by (auto simp only: scenario_first_evaluation operation.inject)
  note t3 = best_loss_non_increasing [where a = scenario_args and epoch_i = 3 and m = ?E3
      and ?m2.0 = ?m2]
  have c3: "chosen_loss scenario_args ?E3 = Some (best_valid_loss_so_far ?E3)"
    by (simp only: scenario_eval_facts)
  from t3 h2 c3
  have "best_valid_loss_so_far ?m2 = best_valid_loss_so_far ?E3 \<and>
        epoch_last_improved ?m2 = epoch_last_improved ?E3"
    by blast
  then have e2: "best_valid_loss_so_far ?m2 = Fin 4 \<and> epoch_last_improved ?m2 = 2"
    by (simp only: scenario_eval_facts)
  from a1 f c1 h2 e2 scenario_eval_facts(4) show ?thesis by blast
qed

section \<open>Claims about the history lists\<close>

text \<open>
  Claim C6.  As stated the claim fails: \<^verbatim>\<open>reset_metrics_for_epoch\<close> assigns fresh empty
  lists to \<^verbatim>\<open>batch-history\<close> and \<^verbatim>\<open>speed-history\<close> of its split, so the elements
  recorded during the epoch before are gone.
\<close>

theorem reset_clears_batch_histories:
  "field_after [OpReset ''train'' 0, OpUpdate ''train'' (demo_call 3 1)]
     (init_metrics demo_args) ''train'' ''batch-history'' = Some (VList [VNum (Fin 7)])
   \<and> field_after [OpReset ''train'' 0, OpUpdate ''train'' (demo_call 3 1), OpReset ''train'' 2]
     (init_metrics demo_args) ''train'' ''batch-history'' = Some (VList [])
   \<and> field_after [OpReset ''train'' 0, OpUpdate ''train'' (demo_call 3 1)]
     (init_metrics demo_args) ''train'' ''speed-history'' = Some (VList [VNum (Fin 1)])
   \<and> field_after [OpReset ''train'' 0, OpUpdate ''train'' (demo_call 3 1), OpReset ''train'' 2]
     (init_metrics demo_args) ''train'' ''speed-history'' = Some (VList [])"
  by (intro conjI; code_simp)

text \<open>
  Claim C6, amended.  Across every run of updates, end-of-epoch averaging, resets and
  early-stopping evaluations that returns, the epoch-level history lists
  (\<^verbatim>\<open>epoch-history-drmsd\<close>, \<^verbatim>\<open>epoch-history-combined\<close>) of every split are only extended at
  their end, and the learning-rate history is kept.  The batch-level lists
  (\<^verbatim>\<open>batch-history\<close>, \<^verbatim>\<open>speed-history\<close>) of a split \<open>s\<close> are only extended at their end
  across every run that does not reset that same split; resets of other splits leave them
  alone.  A reset of a split replaces both batch-level lists of that split by empty lists.
\<close>

theorem histories_append_only_except_reset:
  "(run_operations ops m = Inr m' \<and>
    (k \<in> set epoch_history_keys \<or>
     (k \<in> set batch_history_keys \<and> \<not> list_ex (resets s) ops)) \<and>
    field m s k = Some (VList xs) \<longrightarrow>
      (\<exists>ys. field m' s k = Some (VList (xs @ ys))) \<and>
      prefix (history_lr m) (history_lr m'))
   \<and> (reset_metrics_for_epoch m0 mode now = Inr m1 \<longrightarrow>
        field m1 mode ''batch-history'' = Some (VList []) \<and>
        field m1 mode ''speed-history'' = Some (VList []))"
proof (intro conjI impI)
  assume h: "run_operations ops m = Inr m' \<and>
    (k \<in> set epoch_history_keys \<or>
     (k \<in> set batch_history_keys \<and> \<not> list_ex (resets s) ops)) \<and>
    field m s k = Some (VList xs)"
  then have r: "run_operations ops m = Inr m'"
    and c: "k \<in> set epoch_history_keys \<or>
      (k \<in> set batch_history_keys \<and> \<not> list_ex (resets s) ops)"
    and f: "field m s k = Some (VList xs)"
    by simp_all
  from run_operations_histories [OF r c f]
  show "\<exists>ys. field m' s k = Some (VList (xs @ ys))"
    and "prefix (history_lr m) (history_lr m')"
    by simp_all
next
  assume "reset_metrics_for_epoch m0 mode now = Inr m1"
  from reset_clears_batch_lists [OF this]
  show "field m1 mode ''batch-history'' = Some (VList [])"
    and "field m1 mode ''speed-history'' = Some (VList [])"
    by simp_all
qed

lemma second_epoch_facts:
  "field first_epoch_state ''valid'' ''epoch-history-drmsd'' = Some (VList [VNum (Fin 3)])"
  "is_ok (run_operations second_epoch first_epoch_state)"
  "field (state_after second_epoch first_epoch_state) ''valid'' ''epoch-history-drmsd'' =
     Some (VList [VNum (Fin 3), VNum (Fin 5)])"
  "field demo_state ''train'' ''batch-history'' = Some (VList [VNum (Fin 7)])"
  "is_ok (run_operations [OpUpdate ''train'' (demo_call 5 2), OpReset ''valid'' 3] demo_state)"
  "field (state_after [OpUpdate ''train'' (demo_call 5 2), OpReset ''valid'' 3] demo_state)
     ''train'' ''batch-history'' = Some (VList [VNum (Fin 7), VNum (Fin 7)])"
  "is_ok (reset_metrics_for_epoch demo_state ''train'' 2)"
  by code_simp+

theorem histories_append_only_except_reset_witness:
  "run_operations second_epoch first_epoch_state =
     Inr (state_after second_epoch first_epoch_state)
   \<and> field first_epoch_state ''valid'' ''epoch-history-drmsd'' = Some (VList [VNum (Fin 3)])
   \<and> field (state_after second_epoch first_epoch_state) ''valid'' ''epoch-history-drmsd'' =
       Some (VList ([VNum (Fin 3)] @ [VNum (Fin 5)]))
   \<and> prefix (history_lr first_epoch_state)
       (history_lr (state_after second_epoch first_epoch_state))
   \<and> run_operations [OpUpdate ''train'' (demo_call 5 2), OpReset ''valid'' 3] demo_state =
       Inr (state_after [OpUpdate ''train'' (demo_call 5 2), OpReset ''valid'' 3] demo_state)
   \<and> field demo_state ''train'' ''batch-history'' = Some (VList [VNum (Fin 7)])
   \<and> field (state_after [OpUpdate ''train'' (demo_call 5 2), OpReset ''valid'' 3] demo_state)
       ''train'' ''batch-history'' = Some (VList ([VNum (Fin 7)] @ [VNum (Fin 7)]))
   \<and> (\<exists>m1. reset_metrics_for_epoch demo_state ''train'' 2 = Inr m1 \<and>
         field m1 ''train'' ''batch-history'' = Some (VList []) \<and>
         field m1 ''train'' ''speed-history'' = Some (VList []))"
proof -
  let ?ops = "[OpUpdate ''train'' (demo_call 5 2), OpReset ''valid'' 3]"
  have r1: "run_operations second_epoch first_epoch_state =
     Inr (state_after second_epoch first_epoch_state)"
    using second_epoch_facts(2) by (rule state_after_eq)
  have r2: "run_operations ?ops demo_state = Inr (state_after ?ops demo_state)"
    using second_epoch_facts(5) by (rule state_after_eq)
  from second_epoch_facts(7) obtain m1 where
    r3: "reset_metrics_for_epoch demo_state ''train'' 2 = Inr m1"
    unfolding is_ok_iff by blast
  have k1: "''epoch-history-drmsd'' \<in> set epoch_history_keys \<or>
      (''epoch-history-drmsd'' \<in> set batch_history_keys \<and>
       \<not> list_ex (resets ''valid'') second_epoch)"
    by (simp add: epoch_history_keys_def)
  have k2: "''batch-history'' \<in> set epoch_history_keys \<or>
      (''batch-history'' \<in> set batch_history_keys \<and> \<not> list_ex (resets ''train'') ?ops)"
    by (simp add: batch_history_keys_def)
  from histories_append_only_except_reset [where ops = second_epoch
      and m = first_epoch_state and m' = "state_after second_epoch first_epoch_state"
      and k = "''epoch-history-drmsd''" and s = "''valid''" and xs = "[VNum (Fin 3)]"]
    r1 k1 second_epoch_facts(1)
  have p: "prefix (history_lr first_epoch_state)
       (history_lr (state_after second_epoch first_epoch_state))"
    by blast
  from histories_append_only_except_reset [where ops = ?ops
      and m = demo_state and m' = "state_after ?ops demo_state"
      and k = "''batch-history''" and s = "''train''" and xs = "[VNum (Fin 7)]"]
    r2 k2 second_epoch_facts(4)
  have "\<exists>ys. field (state_after ?ops demo_state) ''train'' ''batch-history'' =
       Some (VList ([VNum (Fin 7)] @ ys))"
    by blast
  from histories_append_only_except_reset [where ?m0.0 = demo_state and mode = "''train''"
      and now = 2 and ?m1.0 = m1] r3
  have c: "field m1 ''train'' ''batch-history'' = Some (VList []) \<and>
         field m1 ''train'' ''speed-history'' = Some (VList [])"
    by blast
  have e: "\<exists>m1. reset_metrics_for_epoch demo_state ''train'' 2 = Inr m1 \<and>
         field m1 ''train'' ''batch-history'' = Some (VList []) \<and>
         field m1 ''train'' ''speed-history'' = Some (VList [])"
    using r3 c by blast
  show ?thesis
    using r1 r2 p e second_epoch_facts(1,3,4,6) by simp
qed

section \<open>Claims about the running sums\<close>





section \<open>Claims about plot titles\<close>

text \<open>
  Claim C8.  \<^verbatim>\<open>title_to_fn\<close> is a function of the title alone.  For every ASCII title the
  result contains none of the characters \<^verbatim>\<open> ,=[]().$\<close> and no uppercase letter, and
  lowercasing it again changes nothing.  A title made of letters, digits and these
  characters maps to a string of lowercase letters, digits and underscores.  For a title
  made of a line \<open>name\<close>, a newline, and \<open>pre\<close> followed by the annotation
  \<^verbatim>\<open>, t = [\<close> \<open>n\<close> \<^verbatim>\<open>, )\<close>, in which \<open>name\<close>, \<open>pre\<close> and \<open>n\<close> are free of newlines and of the
  punctuation \<^verbatim>\<open>,=[]().$\<close>, the first line is dropped and the time-range annotation is
  reduced to \<^verbatim>\<open>_t_\<close>, \<open>n\<close> and a final underscore, after \<open>pre\<close> with its spaces replaced by
  underscores and its letters lowercased.
\<close>

theorem title_to_fn_sanitises:
  "(list_all is_ascii title \<longrightarrow>
      (\<forall>c\<in>set (title_to_fn title). c \<notin> set replace_chars \<and> \<not> is_upper c) \<and>
      map lower_char (title_to_fn title) = title_to_fn title) \<and>
   (list_all title_char title \<longrightarrow> list_all safe_char (title_to_fn title)) \<and>
   (list_all plain_char name \<and> list_all plain_char pre \<and> list_all plain_char n \<longrightarrow>
      title_to_fn (name @ [CHR 0x0A] @ pre @ '', t = ['' @ n @ '', )'')
        = map sanitise_char pre @ ''_t_'' @ map sanitise_char n @ ''_'')"
proof (intro conjI impI ballI)
  fix c
  assume "c \<in> set (title_to_fn title)"
  with title_to_fn_chars [of title] obtain x where "c = sanitise_char x" by blast
  then show "c \<notin> set replace_chars" and "\<not> is_upper c"
    by (simp_all add: sanitise_char_out sanitise_char_not_upper)
next
  from title_to_fn_chars [of title]
  have "\<forall>c\<in>set (title_to_fn title). lower_char c = c"
    by (auto simp: sanitise_char_lower)
  then show "map lower_char (title_to_fn title) = title_to_fn title"
    by (simp add: map_idI)
next
  assume t: "list_all title_char title"
  show "list_all safe_char (title_to_fn title)"
    unfolding list_all_iff
  proof
    fix c
    assume "c \<in> set (title_to_fn title)"
    with title_to_fn_chars [of title] obtain x where c: "c = sanitise_char x"
      and "x \<in> set title \<or> x = CHR ''_''" by blast
    with t have "title_char x \<or> x = CHR ''_''" by (auto simp: list_all_iff)
    then show "safe_char c" unfolding c by (rule sanitise_char_safe)
  qed
next
  assume "list_all plain_char name \<and> list_all plain_char pre \<and> list_all plain_char n"
  then show "title_to_fn (name @ [CHR 0x0A] @ pre @ '', t = ['' @ n @ '', )'')
        = map sanitise_char pre @ ''_t_'' @ map sanitise_char n @ ''_''"
    using annotated_title by blast
qed

lemma title_example:
  "list_all plain_char ''Model A''" "list_all plain_char ''drmsd Loss''"
  "list_all plain_char ''100''"
  "map sanitise_char ''drmsd Loss'' = ''drmsd_loss''"
  "map sanitise_char ''100'' = ''100''"
  "list_all is_ascii ''My Model (v1.2) $x = [3]''"
  "list_all title_char ''My Model (v1.2) $x = [3]''"
  "title_to_fn ''My Model (v1.2) $x = [3]'' = ''my_model__v1_2___x_3_''"
  by code_simp+

theorem title_to_fn_sanitises_witness:
  "title_to_fn (''Model A'' @ [CHR 0x0A] @ ''drmsd Loss'' @ '', t = ['' @ ''100'' @ '', )'')
     = ''drmsd_loss_t_100_'' \<and>
   title_to_fn ''My Model (v1.2) $x = [3]'' = ''my_model__v1_2___x_3_'' \<and>
   list_all (\<lambda>c. c \<notin> set replace_chars \<and> \<not> is_upper c)
     (title_to_fn ''My Model (v1.2) $x = [3]'') \<and>
   list_all safe_char (title_to_fn ''My Model (v1.2) $x = [3]'')"
proof -
  note t = title_to_fn_sanitises [where title = "''My Model (v1.2) $x = [3]''"
      and name = "''Model A''" and pre = "''drmsd Loss''" and n = "''100''"]
  from t title_example(1-5)
  have "title_to_fn (''Model A'' @ [CHR 0x0A] @ ''drmsd Loss'' @ '', t = ['' @ ''100'' @ '', )'')
     = ''drmsd_loss_t_100_''"
    by simp
  moreover from t title_example(6)
  have "list_all (\<lambda>c. c \<notin> set replace_chars \<and> \<not> is_upper c)
     (title_to_fn ''My Model (v1.2) $x = [3]'')"
    unfolding list_all_iff by blast
  moreover from t title_example(7)
  have "list_all safe_char (title_to_fn ''My Model (v1.2) $x = [3]'')" by blast
  ultimately show ?thesis using title_example(8) by blast
qed

section \<open>Claims about the NaN check\<close>

text \<open>
  Claim C5.  \<^verbatim>\<open>do_train_batch_logging\<close> with a NaN loss never returns normally.  In a state
  where the logging of the batch finds all it reads, it records the batch, prints
  \<^verbatim>\<open>A nan loss has occurred. Exiting training.\<close> as its last action and leaves through
  \<^verbatim>\<open>sys.exit(1)\<close>, before any structure is logged.  With a loss that is not NaN it never
  leaves through \<^verbatim>\<open>sys.exit\<close>, whatever the state, and in such a state it returns.
\<close>

theorem nan_loss_exits:
  "(isnan loss \<and> train_ready a m t1 \<longrightarrow>
      (\<exists>evs m2.
         train_batch_records m d_loss ln_d_loss m_loss c_loss src_seq loss cur_lr a
           start_time step t1 t2 t3 = (evs, Inr m2) \<and>
         do_train_batch_logging m d_loss ln_d_loss m_loss c_loss src_seq loss cur_lr a
           start_time step t1 t2 t3 = (evs @ [Print nan_message], Inl (SystemExit 1)))) \<and>
   (isnan loss \<longrightarrow>
      (\<exists>e. snd (do_train_batch_logging m d_loss ln_d_loss m_loss c_loss src_seq loss cur_lr a
                  start_time step t1 t2 t3) = Inl e)) \<and>
   (\<not> isnan loss \<longrightarrow>
      snd (do_train_batch_logging m d_loss ln_d_loss m_loss c_loss src_seq loss cur_lr a
             start_time step t1 t2 t3) \<noteq> Inl (SystemExit n)) \<and>
   (\<not> isnan loss \<and> train_ready a m t1 \<longrightarrow>
      (\<exists>m2. snd (do_train_batch_logging m d_loss ln_d_loss m_loss c_loss src_seq loss cur_lr a
                   start_time step t1 t2 t3) = Inr m2))"
proof -
  let ?R = "train_batch_records m d_loss ln_d_loss m_loss c_loss src_seq loss cur_lr a
           start_time step t1 t2 t3"
  let ?D = "do_train_batch_logging m d_loss ln_d_loss m_loss c_loss src_seq loss cur_lr a
           start_time step t1 t2 t3"
  obtain evs r where R: "?R = (evs, r)" by (cases ?R)
  have ne: "r \<noteq> Inl (SystemExit n)"
    using train_batch_records_no_exit [of m d_loss ln_d_loss m_loss c_loss src_seq loss cur_lr
        a start_time step t1 t2 t3 n] R by simp
  have ready: "\<exists>m2. r = Inr m2" if "train_ready a m t1"
    using train_batch_records_returns [OF that, of d_loss ln_d_loss m_loss c_loss src_seq
        loss cur_lr start_time step t2 t3] R by simp
  have 1: "isnan loss \<and> train_ready a m t1 \<longrightarrow>
      (\<exists>evs m2. ?R = (evs, Inr m2) \<and> ?D = (evs @ [Print nan_message], Inl (SystemExit 1)))"
  proof
    assume h: "isnan loss \<and> train_ready a m t1"
    with ready obtain m2 where "r = Inr m2" by blast
    with R h have "?R = (evs, Inr m2)"
      and "?D = (evs @ [Print nan_message], Inl (SystemExit 1))"
      by (simp_all add: do_train_batch_logging_def)
    then show "\<exists>evs m2. ?R = (evs, Inr m2) \<and>
        ?D = (evs @ [Print nan_message], Inl (SystemExit 1))" by blast
  qed
  have 2: "isnan loss \<longrightarrow> (\<exists>e. snd ?D = Inl e)"
    using R by (cases r) (simp_all add: do_train_batch_logging_def)
  have 3: "\<not> isnan loss \<longrightarrow> snd ?D \<noteq> Inl (SystemExit n)"
    using R ne by (cases r) (simp_all add: do_train_batch_logging_def)
  have 4: "\<not> isnan loss \<and> train_ready a m t1 \<longrightarrow> (\<exists>m2. snd ?D = Inr m2)"
  proof
    assume h: "\<not> isnan loss \<and> train_ready a m t1"
    with ready obtain m2 where "r = Inr m2" by blast
    with R h show "\<exists>m2. snd ?D = Inr m2"
      by (simp add: do_train_batch_logging_def)
  qed
  from 1 2 3 4 show ?thesis by blast
qed

lemma demo_state_ready: "train_ready demo_args demo_state 2"
  by code_simp

theorem nan_loss_exits_witness:
  "snd (do_train_batch_logging demo_state (Fin 3) (Fin 1) (Fin 4) (Fin 7) [[1, 0]] NaN (Fin 0)
          demo_args 0 1 2 2 2) = Inl (SystemExit 1) \<and>
   last (fst (do_train_batch_logging demo_state (Fin 3) (Fin 1) (Fin 4) (Fin 7) [[1, 0]] NaN
          (Fin 0) demo_args 0 1 2 2 2)) = Print nan_message \<and>
   (\<exists>m2. snd (do_train_batch_logging demo_state (Fin 3) (Fin 1) (Fin 4) (Fin 7) [[1, 0]]
          (Fin 7) (Fin 0) demo_args 0 1 2 2 2) = Inr m2)"
proof -
  from nan_loss_exits [where loss = NaN and a = demo_args and m = demo_state and ?t1.0 = 2
      and d_loss = "Fin 3" and ln_d_loss = "Fin 1" and m_loss = "Fin 4" and c_loss = "Fin 7"
      and src_seq = "[[1, 0]]" and cur_lr = "Fin 0" and start_time = 0 and step = 1
      and ?t2.0 = 2 and ?t3.0 = 2] demo_state_ready
  obtain evs where "do_train_batch_logging demo_state (Fin 3) (Fin 1) (Fin 4) (Fin 7)
      [[1, 0]] NaN (Fin 0) demo_args 0 1 2 2 2 = (evs @ [Print nan_message], Inl (SystemExit 1))"
    by auto
  then have "snd (do_train_batch_logging demo_state (Fin 3) (Fin 1) (Fin 4) (Fin 7) [[1, 0]]
      NaN (Fin 0) demo_args 0 1 2 2 2) = Inl (SystemExit 1)"
    and "last (fst (do_train_batch_logging demo_state (Fin 3) (Fin 1) (Fin 4) (Fin 7) [[1, 0]]
      NaN (Fin 0) demo_args 0 1 2 2 2)) = Print nan_message"
    by simp_all
  moreover from nan_loss_exits [where loss = "Fin 7" and a = demo_args and m = demo_state
      and ?t1.0 = 2 and d_loss = "Fin 3" and ln_d_loss = "Fin 1" and m_loss = "Fin 4"
      and c_loss = "Fin 7" and src_seq = "[[1, 0]]" and cur_lr = "Fin 0" and start_time = 0
      and step = 1 and ?t2.0 = 2 and ?t3.0 = 2] demo_state_ready
  have "\<exists>m2. snd (do_train_batch_logging demo_state (Fin 3) (Fin 1) (Fin 4) (Fin 7) [[1, 0]]
          (Fin 7) (Fin 0) demo_args 0 1 2 2 2) = Inr m2"
    by simp
  ultimately show ?thesis by blast
qed

end
